theory Spec2Isabelle
  imports Main "HOL-Library.Sublist" "HOL-Library.Multiset"
begin

section \<open>The task store (task.go)\<close>

subsection \<open>Data model\<close>

text \<open>
  \<open>TaskStatus\<close> and \<open>TaskCategory\<close> are Go string types: the three status constants are
  ordinary strings, and a task read from disk may carry any string as its status.
\<close>

type_synonym TaskStatus = string
type_synonym TaskCategory = string

definition StatusPending :: TaskStatus where
  "StatusPending = ''pending''"

definition StatusInProgress :: TaskStatus where
  "StatusInProgress = ''in-progress''"

definition StatusDone :: TaskStatus where
  "StatusDone = ''done''"

text \<open>
  A reading of \<open>time.Now()\<close>, as the civil date and time of day that \<open>Format\<close> prints,
  with the nanoseconds within the second.
\<close>

record time =
  year :: nat
  month :: nat
  day :: nat
  hour :: nat
  minute :: nat
  second :: nat
  nanosecond :: nat

record Task =
  ID :: string
  Description :: string
  Status :: TaskStatus
  Category :: TaskCategory
  CreatedAt :: time
  UpdatedAt :: time

text \<open>
  The store struct has the fields \<open>filepath\<close> and \<open>tasks\<close>. The field \<open>disk\<close> is the
  state of the disk: the task array held by the file at \<open>filepath\<close>, \<open>None\<close> while the
  file does not exist.
\<close>

record TaskStore =
  filepath :: string
  tasks :: "Task list"
  disk :: "Task list option"

text \<open>The two optional predicates: \<open>None\<close> is the nil pointer.\<close>

record FilterOptions =
  optStatus :: "TaskStatus option"
  optCategory :: "TaskCategory option"

subsection \<open>What a handler takes from its environment\<close>

text \<open>
  One handling step reads the clock at most three times, writes the file at most once and
  ranges over at most one map. \<open>now k\<close> is the \<open>k\<close>-th clock reading of the step;
  \<open>writeResult\<close> is the error of marshalling and writing the file (\<open>None\<close>: written),
  \<open>leftover\<close> what the file holds after a failed write; \<open>rangeOrder\<close> is the order in
  which the runtime enumerates the keys of a map, given in the order of their insertion.
\<close>

type_synonym error = string

record env =
  now :: "nat \<Rightarrow> time"
  writeResult :: "error option"
  leftover :: "Task list option"
  rangeOrder :: "string list \<Rightarrow> string list"

subsection \<open>Identifier generation\<close>

definition digit :: "nat \<Rightarrow> char" where
  "digit n = ''0123456789'' ! n"

function utoa :: "nat \<Rightarrow> string" where
  "utoa n = (if n < 10 then [digit n] else utoa (n div 10) @ [digit (n mod 10)])"
  by pat_completeness auto
termination
  by (relation "measure id") auto

declare utoa.simps [simp del]

text \<open>A number in decimal, padded with zeros on the left up to \<open>width\<close> digits.\<close>

definition appendInt :: "nat \<Rightarrow> nat \<Rightarrow> string" where
  "appendInt x width = replicate (width - length (utoa x)) (CHR ''0'') @ utoa x"

text \<open>
  \<open>time.Now().Format("20060102150405.000000")\<close>: year, month, day, hour, minute and
  second, then the fraction of the second cut to six digits.
\<close>

definition Format_ID :: "time \<Rightarrow> string" where
  "Format_ID t =
     appendInt (year t) 4 @ appendInt (month t) 2 @ appendInt (day t) 2 @
     appendInt (hour t) 2 @ appendInt (minute t) 2 @ appendInt (second t) 2 @
     ''.'' @ appendInt (nanosecond t div 1000) 6"

definition generateID :: "env \<Rightarrow> string" where
  "generateID e = Format_ID (now e 0)"

subsection \<open>Operations\<close>

definition Save :: "env \<Rightarrow> TaskStore \<Rightarrow> TaskStore \<times> error option" where
  "Save e s =
     (case writeResult e of
        None \<Rightarrow> (s\<lparr>disk := Some (tasks s)\<rparr>, None)
      | Some err \<Rightarrow> (s\<lparr>disk := leftover e\<rparr>, Some err))"

definition GetAll :: "TaskStore \<Rightarrow> Task list" where
  "GetAll s = tasks s"

text \<open>The keys of \<open>categorySet\<close> after the first loop, in the order of their insertion.\<close>

fun categorySet :: "Task list \<Rightarrow> string list \<Rightarrow> string list" where
  "categorySet [] ks = ks"
| "categorySet (t # ts) ks =
     categorySet ts
       (if Category t \<noteq> [] then (if Category t \<in> set ks then ks else ks @ [Category t])
        else ks)"

definition GetCategories :: "env \<Rightarrow> TaskStore \<Rightarrow> string list" where
  "GetCategories e s = rangeOrder e (categorySet (tasks s) [])"

definition Add :: "env \<Rightarrow> TaskStore \<Rightarrow> string \<Rightarrow> TaskCategory \<Rightarrow> TaskStore \<times> error option" where
  "Add e s description category =
     (let task = \<lparr>ID = generateID e, Description = description, Status = StatusPending,
                  Category = category, CreatedAt = now e 1, UpdatedAt = now e 2\<rparr>
      in Save e (s\<lparr>tasks := tasks s @ [task]\<rparr>))"

fun findFrom :: "Task list \<Rightarrow> string \<Rightarrow> int \<Rightarrow> int" where
  "findFrom [] tid i = - 1"
| "findFrom (t # ts) tid i = (if ID t = tid then i else findFrom ts tid (i + 1))"

definition findTaskIndex :: "TaskStore \<Rightarrow> string \<Rightarrow> int" where
  "findTaskIndex s tid = findFrom (tasks s) tid 0"

definition UpdateStatus :: "env \<Rightarrow> TaskStore \<Rightarrow> string \<Rightarrow> TaskStatus \<Rightarrow> TaskStore \<times> error option" where
  "UpdateStatus e s tid status =
     (let idx = findTaskIndex s tid in
      if idx \<noteq> - 1
      then Save e (s\<lparr>tasks := (tasks s)[nat idx :=
              (tasks s ! nat idx)\<lparr>Status := status, UpdatedAt := now e 0\<rparr>]\<rparr>)
      else (s, None))"

definition UpdateDescription :: "env \<Rightarrow> TaskStore \<Rightarrow> string \<Rightarrow> string \<Rightarrow> TaskStore \<times> error option" where
  "UpdateDescription e s tid description =
     (let idx = findTaskIndex s tid in
      if idx \<noteq> - 1
      then Save e (s\<lparr>tasks := (tasks s)[nat idx :=
              (tasks s ! nat idx)\<lparr>Description := description, UpdatedAt := now e 0\<rparr>]\<rparr>)
      else (s, None))"

definition UpdateCategory :: "env \<Rightarrow> TaskStore \<Rightarrow> string \<Rightarrow> TaskCategory \<Rightarrow> TaskStore \<times> error option" where
  "UpdateCategory e s tid category =
     (let idx = findTaskIndex s tid in
      if idx \<noteq> - 1
      then Save e (s\<lparr>tasks := (tasks s)[nat idx :=
              (tasks s ! nat idx)\<lparr>Category := category, UpdatedAt := now e 0\<rparr>]\<rparr>)
      else (s, None))"

definition Update :: "env \<Rightarrow> TaskStore \<Rightarrow> string \<Rightarrow> string \<Rightarrow> TaskCategory \<Rightarrow> TaskStore \<times> error option" where
  "Update e s tid description category =
     (let idx = findTaskIndex s tid in
      if idx \<noteq> - 1
      then Save e (s\<lparr>tasks := (tasks s)[nat idx :=
              (tasks s ! nat idx)\<lparr>Description := description, Category := category,
                                   UpdatedAt := now e 0\<rparr>]\<rparr>)
      else (s, None))"

definition Delete :: "env \<Rightarrow> TaskStore \<Rightarrow> string \<Rightarrow> TaskStore \<times> error option" where
  "Delete e s tid =
     (let idx = findTaskIndex s tid in
      if idx \<noteq> - 1
      then Save e (s\<lparr>tasks := take (nat idx) (tasks s) @ drop (nat idx + 1) (tasks s)\<rparr>)
      else (s, None))"

text \<open>The loop of \<open>Filter\<close>: a task failing a check that is set is skipped.\<close>

fun filterLoop :: "FilterOptions \<Rightarrow> Task list \<Rightarrow> Task list \<Rightarrow> Task list" where
  "filterLoop opts [] filtered = filtered"
| "filterLoop opts (task # rest) filtered =
     (if optStatus opts \<noteq> None \<and> Status task \<noteq> the (optStatus opts)
      then filterLoop opts rest filtered
      else if optCategory opts \<noteq> None \<and> Category task \<noteq> the (optCategory opts)
      then filterLoop opts rest filtered
      else filterLoop opts rest (filtered @ [task]))"

definition Filter :: "TaskStore \<Rightarrow> FilterOptions \<Rightarrow> Task list" where
  "Filter s opts = filterLoop opts (tasks s) []"

section \<open>The interaction controller (ui.go)\<close>

subsection \<open>Messages, commands and the text input\<close>

text \<open>
  A key message as the handlers read it: \<open>msg.Type\<close> (only Esc, Tab and Enter are told
  apart) and the text \<open>msg.String()\<close>. Any other message of the event loop is opaque.
\<close>

datatype KeyType = KeyEsc | KeyTab | KeyEnter | KeyOther

record KeyMsg =
  keyType :: KeyType
  keyString :: string

datatype Msg = Key KeyMsg | OtherMsg nat

text \<open>The command handed back to the event loop: \<open>nil\<close>, \<open>tea.Quit\<close>,
  \<open>textinput.Blink\<close>, or whatever the text input returns.\<close>

datatype Cmd = NoCmd | Quit | Blink | WidgetCmd nat

text \<open>
  The text input is a component of a library outside the repository; the controller is
  modelled over any implementation \<open>'ti\<close> of it, given by the operations it calls.
\<close>

record 'ti widget =
  tiUpdate :: "'ti \<Rightarrow> Msg \<Rightarrow> 'ti \<times> Cmd"
  tiValue :: "'ti \<Rightarrow> string"
  tiSetValue :: "'ti \<Rightarrow> string \<Rightarrow> 'ti"
  tiReset :: "'ti \<Rightarrow> 'ti"
  tiFocus :: "'ti \<Rightarrow> 'ti"
  tiBlur :: "'ti \<Rightarrow> 'ti"

subsection \<open>strings.TrimSpace\<close>

text \<open>
  The white space of Unicode in UTF-8: the six ASCII characters, U+0085, U+00A0, U+1680,
  U+2000 to U+200A, U+2028, U+2029, U+202F, U+205F and U+3000.
\<close>

definition whiteSpace :: "string list" where
  "whiteSpace =
     [[CHR 0x09], [CHR 0x0A], [CHR 0x0B], [CHR 0x0C], [CHR 0x0D], [CHR 0x20],
      [CHR 0xC2, CHR 0x85], [CHR 0xC2, CHR 0xA0], [CHR 0xE1, CHR 0x9A, CHR 0x80],
      [CHR 0xE2, CHR 0x80, CHR 0x80], [CHR 0xE2, CHR 0x80, CHR 0x81],
      [CHR 0xE2, CHR 0x80, CHR 0x82], [CHR 0xE2, CHR 0x80, CHR 0x83],
      [CHR 0xE2, CHR 0x80, CHR 0x84], [CHR 0xE2, CHR 0x80, CHR 0x85],
      [CHR 0xE2, CHR 0x80, CHR 0x86], [CHR 0xE2, CHR 0x80, CHR 0x87],
      [CHR 0xE2, CHR 0x80, CHR 0x88], [CHR 0xE2, CHR 0x80, CHR 0x89],
      [CHR 0xE2, CHR 0x80, CHR 0x8A], [CHR 0xE2, CHR 0x80, CHR 0xA8],
      [CHR 0xE2, CHR 0x80, CHR 0xA9], [CHR 0xE2, CHR 0x80, CHR 0xAF],
      [CHR 0xE2, CHR 0x81, CHR 0x9F], [CHR 0xE3, CHR 0x80, CHR 0x80]]"

text \<open>Drop from the front every leading occurrence of one of the sequences \<open>ps\<close>.\<close>

fun trimLeading :: "string list \<Rightarrow> string \<Rightarrow> string" where
  "trimLeading ps [] = []"
| "trimLeading ps (c # cs) =
     (case find (\<lambda>p. p \<noteq> [] \<and> prefix p (c # cs)) ps of
        None \<Rightarrow> c # cs
      | Some p \<Rightarrow> trimLeading ps (drop (length p - 1) cs))"

definition TrimSpace :: "string \<Rightarrow> string" where
  "TrimSpace s = rev (trimLeading (map rev whiteSpace) (rev (trimLeading whiteSpace s)))"

subsection \<open>The model\<close>

datatype ViewMode = ModeList | ModeCreate | ModeEdit | ModeFilter | ModeFilterCategory

text \<open>
  The field \<open>store\<close> is a pointer to the one store of the process; a step returns the
  model together with the store it leaves behind. \<open>mtasks\<close> is the field \<open>tasks\<close>.
\<close>

record 'ti model =
  store :: TaskStore
  mtasks :: "Task list"
  cursor :: int
  viewMode :: ViewMode
  textInput :: 'ti
  categoryInput :: 'ti
  filterStatus :: "TaskStatus option"
  filterCategory :: "TaskCategory option"
  message :: string
  quitting :: bool
  activeInput :: int
  editingTaskID :: string
  viewAsTable :: bool

text \<open>\<open>ti\<close> and \<open>ci\<close> are the two inputs as \<open>textinput.New()\<close> and the settings of
  \<open>initialModel\<close> leave them.\<close>

definition initialModel :: "'ti \<Rightarrow> 'ti \<Rightarrow> TaskStore \<Rightarrow> 'ti model" where
  "initialModel ti ci st =
     \<lparr>store = st, mtasks = GetAll st, cursor = 0, viewMode = ModeList, textInput = ti,
      categoryInput = ci, filterStatus = None, filterCategory = None, message = [],
      quitting = False, activeInput = 0, editingTaskID = [], viewAsTable = True\<rparr>"

definition refreshTasks :: "'ti model \<Rightarrow> 'ti model" where
  "refreshTasks m =
     m\<lparr>mtasks := Filter (store m)
                    \<lparr>optStatus = filterStatus m, optCategory = filterCategory m\<rparr>\<rparr>"

definition hasCurrentTask :: "'ti model \<Rightarrow> bool" where
  "hasCurrentTask m = (int (length (mtasks m)) > 0 \<and> cursor m < int (length (mtasks m)))"

text \<open>\<open>m.tasks[m.cursor]\<close>: an index out of range is a run-time panic, \<open>None\<close>.\<close>

definition getCurrentTask :: "'ti model \<Rightarrow> Task option" where
  "getCurrentTask m =
     (if 0 \<le> cursor m \<and> cursor m < int (length (mtasks m))
      then Some (mtasks m ! nat (cursor m)) else None)"

definition updateTaskStatus :: "env \<Rightarrow> TaskStatus \<Rightarrow> 'ti model \<Rightarrow> 'ti model option" where
  "updateTaskStatus e status m =
     (if hasCurrentTask m
      then (case getCurrentTask m of
              None \<Rightarrow> None
            | Some task \<Rightarrow>
                (case UpdateStatus e (store m) (ID task) status of
                   (st, None) \<Rightarrow> Some (refreshTasks (m\<lparr>store := st\<rparr>))
                 | (st, Some err) \<Rightarrow>
                     Some (refreshTasks
                             (m\<lparr>store := st, message := ''Error updating task: '' @ err\<rparr>))))
      else Some m)"

definition applyStatusFilter :: "TaskStatus \<Rightarrow> string \<Rightarrow> 'ti model \<Rightarrow> 'ti model" where
  "applyStatusFilter status msg m =
     (refreshTasks (m\<lparr>filterStatus := Some status\<rparr>))
       \<lparr>viewMode := ModeList, message := msg, cursor := 0\<rparr>"

subsection \<open>The handlers\<close>

text \<open>
  A handler returns the model and the command, or \<open>None\<close> where the code panics. The
  branches stand in the order of the \<open>switch\<close>; a case that does not return falls to the
  \<open>return m, nil\<close> at the end of the function.
\<close>

definition updateListMode ::
  "'ti widget \<Rightarrow> env \<Rightarrow> 'ti model \<Rightarrow> KeyMsg \<Rightarrow> ('ti model \<times> Cmd) option" where
  "updateListMode W e m msg =
     (let k = keyString msg in
      if k = ''ctrl+c'' \<or> k = ''q'' then Some (m\<lparr>quitting := True\<rparr>, Quit)
      else if k = ''n'' then
        Some (m\<lparr>viewMode := ModeCreate,
                textInput := tiFocus W (tiReset W (textInput m)),
                categoryInput := tiBlur W (tiReset W (categoryInput m)),
                activeInput := 0, editingTaskID := [],
                message := ''Enter task details (Tab to switch fields, Enter to save, ESC to cancel)''\<rparr>,
              Blink)
      else if k = ''e'' then
        (if hasCurrentTask m
         then (case getCurrentTask m of
                 None \<Rightarrow> None
               | Some task \<Rightarrow>
                   Some (m\<lparr>viewMode := ModeEdit, editingTaskID := ID task,
                           textInput := tiFocus W (tiSetValue W (textInput m) (Description task)),
                           categoryInput := tiBlur W (tiSetValue W (categoryInput m) (Category task)),
                           activeInput := 0,
                           message := ''Edit task (Tab to switch fields, Enter to save, ESC to cancel)''\<rparr>,
                         Blink))
         else Some (m, NoCmd))
      else if k = ''f'' then
        Some (m\<lparr>viewMode := ModeFilter,
                message := ''Filter: (a)ll, (p)ending, (i)n-progress, (d)one, (c)ategory, ESC to cancel''\<rparr>,
              NoCmd)
      else if k = ''v'' then
        (let m1 = m\<lparr>viewAsTable := \<not> viewAsTable m\<rparr> in
         if viewAsTable m1
         then Some (m1\<lparr>message := ''Switched to table view''\<rparr>, NoCmd)
         else Some (m1\<lparr>message := ''Switched to list view''\<rparr>, NoCmd))
      else if k = ''up'' \<or> k = ''k'' then
        (if cursor m > 0 then Some (m\<lparr>cursor := cursor m - 1\<rparr>, NoCmd) else Some (m, NoCmd))
      else if k = ''down'' \<or> k = ''j'' then
        (if cursor m < int (length (mtasks m)) - 1
         then Some (m\<lparr>cursor := cursor m + 1\<rparr>, NoCmd) else Some (m, NoCmd))
      else if k = ''d'' then
        (if hasCurrentTask m
         then (case getCurrentTask m of
                 None \<Rightarrow> None
               | Some task \<Rightarrow>
                   if Status task = StatusDone
                   then (case updateTaskStatus e StatusPending m of
                           None \<Rightarrow> None
                         | Some m1 \<Rightarrow> Some (m1\<lparr>message := ''Task marked as pending''\<rparr>, NoCmd))
                   else (case updateTaskStatus e StatusDone m of
                           None \<Rightarrow> None
                         | Some m1 \<Rightarrow> Some (m1\<lparr>message := ''Task marked as done!''\<rparr>, NoCmd)))
         else Some (m, NoCmd))
      else if k = ''i'' then
        (if hasCurrentTask m
         then (case updateTaskStatus e StatusInProgress m of
                 None \<Rightarrow> None
               | Some m1 \<Rightarrow> Some (m1\<lparr>message := ''Task marked as in-progress''\<rparr>, NoCmd))
         else Some (m, NoCmd))
      else if k = ''p'' then
        (if hasCurrentTask m
         then (case updateTaskStatus e StatusPending m of
                 None \<Rightarrow> None
               | Some m1 \<Rightarrow> Some (m1\<lparr>message := ''Task marked as pending''\<rparr>, NoCmd))
         else Some (m, NoCmd))
      else if k = ''x'' then
        (if hasCurrentTask m
         then (case getCurrentTask m of
                 None \<Rightarrow> None
               | Some task \<Rightarrow>
                   (let (st, err) = Delete e (store m) (ID task);
                        m1 = (case err of
                                Some er \<Rightarrow> m\<lparr>store := st, message := ''Error deleting task: '' @ er\<rparr>
                              | None \<Rightarrow> m\<lparr>store := st, message := ''Task deleted''\<rparr>);
                        m2 = refreshTasks m1
                    in if cursor m2 \<ge> int (length (mtasks m2)) \<and> cursor m2 > 0
                       then Some (m2\<lparr>cursor := cursor m2 - 1\<rparr>, NoCmd)
                       else Some (m2, NoCmd)))
         else Some (m, NoCmd))
      else Some (m, NoCmd))"

text \<open>Tab in the create and edit modes: the other of the two inputs takes the focus.\<close>

definition switchInput :: "'ti widget \<Rightarrow> 'ti model \<Rightarrow> 'ti model" where
  "switchInput W m =
     (if activeInput m = 0
      then m\<lparr>activeInput := 1, textInput := tiBlur W (textInput m),
             categoryInput := tiFocus W (categoryInput m)\<rparr>
      else m\<lparr>activeInput := 0, categoryInput := tiBlur W (categoryInput m),
             textInput := tiFocus W (textInput m)\<rparr>)"

text \<open>Any other key in the create and edit modes goes to the input that has the focus.\<close>

definition typeInto :: "'ti widget \<Rightarrow> 'ti model \<Rightarrow> KeyMsg \<Rightarrow> 'ti model \<times> Cmd" where
  "typeInto W m msg =
     (if activeInput m = 0
      then (let (ti, cmd) = tiUpdate W (textInput m) (Key msg) in (m\<lparr>textInput := ti\<rparr>, cmd))
      else (let (ci, cmd) = tiUpdate W (categoryInput m) (Key msg)
            in (m\<lparr>categoryInput := ci\<rparr>, cmd)))"

definition updateCreateMode ::
  "'ti widget \<Rightarrow> env \<Rightarrow> 'ti model \<Rightarrow> KeyMsg \<Rightarrow> ('ti model \<times> Cmd) option" where
  "updateCreateMode W e m msg =
     (case keyType msg of
        KeyEsc \<Rightarrow> Some (m\<lparr>viewMode := ModeList, message := ''Task creation cancelled''\<rparr>, NoCmd)
      | KeyTab \<Rightarrow> Some (switchInput W m, Blink)
      | KeyEnter \<Rightarrow>
          (let description = TrimSpace (tiValue W (textInput m)) in
           if description = []
           then Some (m\<lparr>viewMode := ModeList,
                        message := ''Task creation cancelled - description is required''\<rparr>, NoCmd)
           else
             (let categoryStr = TrimSpace (tiValue W (categoryInput m)) in
              if categoryStr = []
              then Some (m\<lparr>viewMode := ModeList,
                           message := ''Task creation cancelled - category is required''\<rparr>, NoCmd)
              else
                (let (st, err) = Add e (store m) description categoryStr;
                     m1 = (case err of
                             Some er \<Rightarrow> m\<lparr>store := st, message := ''Error creating task: '' @ er\<rparr>
                           | None \<Rightarrow>
                               m\<lparr>store := st,
                                 message := ''Task created: '' @ description @ '' ['' @ categoryStr @ '']''\<rparr>)
                 in Some ((refreshTasks m1)\<lparr>viewMode := ModeList\<rparr>, NoCmd))))
      | KeyOther \<Rightarrow> Some (typeInto W m msg))"

definition updateEditMode ::
  "'ti widget \<Rightarrow> env \<Rightarrow> 'ti model \<Rightarrow> KeyMsg \<Rightarrow> ('ti model \<times> Cmd) option" where
  "updateEditMode W e m msg =
     (case keyType msg of
        KeyEsc \<Rightarrow>
          Some (m\<lparr>viewMode := ModeList, message := ''Edit cancelled'', editingTaskID := []\<rparr>, NoCmd)
      | KeyTab \<Rightarrow> Some (switchInput W m, Blink)
      | KeyEnter \<Rightarrow>
          (let description = TrimSpace (tiValue W (textInput m)) in
           if description = []
           then Some (m\<lparr>viewMode := ModeList,
                        message := ''Edit cancelled - description is required'',
                        editingTaskID := []\<rparr>, NoCmd)
           else
             (let categoryStr = TrimSpace (tiValue W (categoryInput m));
                  (st, err) = Update e (store m) (editingTaskID m) description categoryStr;
                  m1 = (case err of
                          Some er \<Rightarrow> m\<lparr>store := st, message := ''Error updating task: '' @ er\<rparr>
                        | None \<Rightarrow> m\<lparr>store := st, message := ''Task updated successfully''\<rparr>)
              in Some ((refreshTasks m1)\<lparr>editingTaskID := [], viewMode := ModeList\<rparr>, NoCmd)))
      | KeyOther \<Rightarrow> Some (typeInto W m msg))"

definition updateFilterMode :: "'ti model \<Rightarrow> KeyMsg \<Rightarrow> ('ti model \<times> Cmd) option" where
  "updateFilterMode m msg =
     (let k = keyString msg in
      if k = ''esc'' then Some (m\<lparr>viewMode := ModeList, message := ''Filter cancelled''\<rparr>, NoCmd)
      else if k = ''a'' then
        Some ((refreshTasks (m\<lparr>filterStatus := None, filterCategory := None\<rparr>))
                \<lparr>viewMode := ModeList, message := ''Showing all tasks'', cursor := 0\<rparr>, NoCmd)
      else if k = ''p'' then Some (applyStatusFilter StatusPending ''Showing pending tasks'' m, NoCmd)
      else if k = ''i'' then
        Some (applyStatusFilter StatusInProgress ''Showing in-progress tasks'' m, NoCmd)
      else if k = ''d'' then Some (applyStatusFilter StatusDone ''Showing done tasks'' m, NoCmd)
      else if k = ''c'' then
        Some (m\<lparr>viewMode := ModeFilterCategory, message := ''Select category to filter by''\<rparr>, NoCmd)
      else Some (m, NoCmd))"

text \<open>The test for a key from 1 to 9: a text of one byte between \<open>'1'\<close> and \<open>'9'\<close>.\<close>

definition isDigitKey :: "string \<Rightarrow> bool" where
  "isDigitKey k =
     (length k = 1 \<and> (of_char (CHR ''1'') :: nat) \<le> of_char (hd k) \<and>
      (of_char (hd k) :: nat) \<le> of_char (CHR ''9''))"

definition updateFilterCategoryMode ::
  "env \<Rightarrow> 'ti model \<Rightarrow> KeyMsg \<Rightarrow> ('ti model \<times> Cmd) option" where
  "updateFilterCategoryMode e m msg =
     (let k = keyString msg in
      if k = ''esc'' then Some (m\<lparr>viewMode := ModeList, message := ''Filter cancelled''\<rparr>, NoCmd)
      else if k = ''a'' then
        Some ((refreshTasks (m\<lparr>filterCategory := None\<rparr>))
                \<lparr>viewMode := ModeList, message := ''Showing all categories'', cursor := 0\<rparr>, NoCmd)
      else
        (let categories = GetCategories e (store m) in
         if isDigitKey k
         then (let idx = int (of_char (hd k)) - int (of_char (CHR ''1'')) in
               if idx < int (length categories)
               then (let categoryStr = categories ! nat idx in
                     Some ((refreshTasks (m\<lparr>filterCategory := Some categoryStr\<rparr>))
                             \<lparr>viewMode := ModeList,
                              message := ''Showing tasks in category: '' @ categoryStr,
                              cursor := 0\<rparr>, NoCmd))
               else Some (m, NoCmd))
         else Some (m, NoCmd)))"

text \<open>\<open>Update\<close> of the model: a key goes to the handler of the mode, any other message to
  the description input.\<close>

definition model_Update ::
  "'ti widget \<Rightarrow> env \<Rightarrow> 'ti model \<Rightarrow> Msg \<Rightarrow> ('ti model \<times> Cmd) option" where
  "model_Update W e m msg =
     (case msg of
        Key k \<Rightarrow>
          (case viewMode m of
             ModeCreate \<Rightarrow> updateCreateMode W e m k
           | ModeEdit \<Rightarrow> updateEditMode W e m k
           | ModeFilter \<Rightarrow> updateFilterMode m k
           | ModeFilterCategory \<Rightarrow> updateFilterCategoryMode e m k
           | ModeList \<Rightarrow> updateListMode W e m k)
      | OtherMsg n \<Rightarrow>
          (let (ti, cmd) = tiUpdate W (textInput m) msg in Some (m\<lparr>textInput := ti\<rparr>, cmd)))"

text \<open>
  The event loop: the messages are handled one after the other, each with what its step
  takes from the environment, every step starting from the model the step before returned.
\<close>

fun run :: "'ti widget \<Rightarrow> 'ti model \<Rightarrow> (env \<times> Msg) list \<Rightarrow> 'ti model option" where
  "run W m [] = Some m"
| "run W m (ev # evs) =
     (case model_Update W (fst ev) m (snd ev) of
        None \<Rightarrow> None
      | Some r \<Rightarrow> run W (fst r) evs)"

section \<open>Notions used in the properties\<close>

text \<open>When a task passes the filter: every predicate that is set holds of it.\<close>

definition matches :: "FilterOptions \<Rightarrow> Task \<Rightarrow> bool" where
  "matches F T =
     ((optStatus F = None \<or> Status T = the (optStatus F)) \<and>
      (optCategory F = None \<or> Category T = the (optCategory F)))"

text \<open>The visible list is the filter of the store under the active options.\<close>

definition visible_ok :: "'ti model \<Rightarrow> bool" where
  "visible_ok m =
     (mtasks m = Filter (store m) \<lparr>optStatus = filterStatus m, optCategory = filterCategory m\<rparr>)"

text \<open>The invariant of the controller: the visible list is up to date and the cursor is
  not negative.\<close>

definition model_ok :: "'ti model \<Rightarrow> bool" where
  "model_ok m = (visible_ok m \<and> 0 \<le> cursor m)"



text \<open>A step left the store, the filter options and the visible list as they were.\<close>

definition untouched :: "'ti model \<Rightarrow> 'ti model \<Rightarrow> bool" where
  "untouched m m' =
     (store m' = store m \<and> filterStatus m' = filterStatus m \<and>
      filterCategory m' = filterCategory m \<and> mtasks m' = mtasks m)"

subsection \<open>Concrete inputs\<close>

text \<open>Two clock readings 800 nanoseconds apart, within one microsecond.\<close>

definition clockA :: time where
  "clockA = \<lparr>year = 2026, month = 11, day = 1, hour = 1, minute = 30, second = 0,
             nanosecond = 123456100\<rparr>"

definition clockB :: time where
  "clockB = \<lparr>year = 2026, month = 11, day = 1, hour = 1, minute = 30, second = 0,
             nanosecond = 123456900\<rparr>"

text \<open>A step at clock reading \<open>t\<close> whose write succeeds and whose maps are enumerated in
  the order of insertion.\<close>

definition envAt :: "time \<Rightarrow> env" where
  "envAt t = \<lparr>now = (\<lambda>k. t), writeResult = None, leftover = None, rangeOrder = (\<lambda>ks. ks)\<rparr>"

definition emptyStore :: TaskStore where
  "emptyStore = \<lparr>filepath = ''tasks.json'', tasks = [], disk = None\<rparr>"

definition taskA :: Task where
  "taskA = \<lparr>ID = ''20261101013000.000001'', Description = ''Write report'',
            Status = ''pending'', Category = ''work'', CreatedAt = clockA, UpdatedAt = clockA\<rparr>"

definition taskB :: Task where
  "taskB = \<lparr>ID = ''20261101013000.000002'', Description = ''Buy milk'',
            Status = ''done'', Category = ''errands'', CreatedAt = clockA, UpdatedAt = clockB\<rparr>"

definition twoTasks :: TaskStore where
  "twoTasks = \<lparr>filepath = ''tasks.json'', tasks = [taskA, taskB], disk = Some [taskA, taskB]\<rparr>"

definition oneTask :: TaskStore where
  "oneTask = \<lparr>filepath = ''tasks.json'', tasks = [taskA], disk = Some [taskA]\<rparr>"

text \<open>A text input that is its text: typing is not modelled, the text is set.\<close>

definition plainInput :: "string widget" where
  "plainInput =
     \<lparr>tiUpdate = (\<lambda>v msg. (v, NoCmd)), tiValue = (\<lambda>v. v), tiSetValue = (\<lambda>v s. s),
      tiReset = (\<lambda>v. []), tiFocus = (\<lambda>v. v), tiBlur = (\<lambda>v. v)\<rparr>"

text \<open>The key that prints as \<open>s\<close>, and the Esc and Enter keys.\<close>

definition keyOf :: "string \<Rightarrow> KeyMsg" where
  "keyOf s = \<lparr>keyType = KeyOther, keyString = s\<rparr>"

definition escKey :: KeyMsg where
  "escKey = \<lparr>keyType = KeyEsc, keyString = ''esc''\<rparr>"

definition enterKey :: KeyMsg where
  "enterKey = \<lparr>keyType = KeyEnter, keyString = ''enter''\<rparr>"

text \<open>The create form over the empty store, holding a description and no category.\<close>

definition buyMilkForm :: "string model" where
  "buyMilkForm =
     (initialModel [] [] emptyStore)
       \<lparr>viewMode := ModeCreate, textInput := ''Buy milk'', categoryInput := []\<rparr>"

text \<open>A filter menu over the two tasks, with the done tasks of the errands shown.\<close>

definition doneErrands :: "ViewMode \<Rightarrow> string model" where
  "doneErrands mode =
     (initialModel [] [] twoTasks)
       \<lparr>viewMode := mode, filterStatus := Some StatusDone, filterCategory := Some ''errands'',
        mtasks := [taskB]\<rparr>"

text \<open>Single keys, as event lists.\<close>

definition pressDown :: "(env \<times> Msg) list" where
  "pressDown = [(envAt clockB, Key (keyOf ''down''))]"


definition pressX :: "(env \<times> Msg) list" where
  "pressX = [(envAt clockB, Key (keyOf ''x''))]"

text \<open>The two tasks with the cursor moved down to the last row.\<close>

definition onLastRow :: "string model" where
  "onLastRow = (initialModel [] [] twoTasks)\<lparr>cursor := 1\<rparr>"

text \<open>The category menu over the two tasks.\<close>

definition categoryMenu :: "string model" where
  "categoryMenu = (initialModel [] [] twoTasks)\<lparr>viewMode := ModeFilterCategory\<rparr>"

definition pressF :: "(env \<times> Msg) list" where
  "pressF = [(envAt clockB, Key (keyOf ''f''))]"

definition pressFC :: "(env \<times> Msg) list" where
  "pressFC = [(envAt clockB, Key (keyOf ''f'')), (envAt clockB, Key (keyOf ''c''))]"

text \<open>Two pending tasks; the pending tasks are chosen in the filter menu, the cursor is
  moved to the second and it is marked done.\<close>

definition taskC :: Task where
  "taskC = \<lparr>ID = ''20261101013000.000003'', Description = ''Book flights'',
            Status = ''pending'', Category = ''work'', CreatedAt = clockA, UpdatedAt = clockA\<rparr>"

definition twoPending :: TaskStore where
  "twoPending = \<lparr>filepath = ''tasks.json'', tasks = [taskA, taskC], disk = Some [taskA, taskC]\<rparr>"

definition pressFPJD :: "(env \<times> Msg) list" where
  "pressFPJD = [(envAt clockB, Key (keyOf ''f'')), (envAt clockB, Key (keyOf ''p'')),
               (envAt clockB, Key (keyOf ''j'')), (envAt clockB, Key (keyOf ''d''))]"

text \<open>The filter menu is opened and the done tasks are chosen.\<close>

definition pressFD :: "(env \<times> Msg) list" where
  "pressFD = [(envAt clockB, Key (keyOf ''f'')), (envAt clockB, Key (keyOf ''d''))]"

section \<open>Properties of the store\<close>

subsection \<open>Filter\<close>

lemma filterLoop_filter:
  "filterLoop F ts acc = acc @ filter (matches F) ts"
proof (induction ts arbitrary: acc)
  case Nil
  show ?case by simp
next
  case (Cons t ts)
  show ?case
    by (cases "optStatus F"; cases "optCategory F") (auto simp: matches_def Cons.IH)
qed

lemma Filter_filter: "Filter s F = filter (matches F) (tasks s)"
  by (simp add: Filter_def filterLoop_filter)

text \<open>
  Claim C2. For every task \<open>T\<close> and every filter \<open>F\<close>, \<open>Filter F\<close> contains \<open>T\<close> exactly
  when \<open>T\<close> is stored, its status is the one asked for (if one is) and its category is the
  one asked for (if one is). The result is the stored sequence with the other tasks left
  out, so the order of insertion is kept; with no predicate set it is the whole stored
  sequence; and it is the empty sequence exactly when no stored task matches.
\<close>

theorem Filter_correct:
  "(T \<in> set (Filter s F) \<longleftrightarrow>
      T \<in> set (tasks s) \<and>
      (optStatus F = None \<or> Status T = the (optStatus F)) \<and>
      (optCategory F = None \<or> Category T = the (optCategory F))) \<and>
   Filter s F =
     filter (\<lambda>T. (optStatus F = None \<or> Status T = the (optStatus F)) \<and>
                 (optCategory F = None \<or> Category T = the (optCategory F))) (tasks s) \<and>
   subseq (Filter s F) (tasks s) \<and>
   Filter s \<lparr>optStatus = None, optCategory = None\<rparr> = tasks s \<and>
   (Filter s F = [] \<longleftrightarrow>
      \<not> (\<exists>T. T \<in> set (tasks s) \<and>
              (optStatus F = None \<or> Status T = the (optStatus F)) \<and>
              (optCategory F = None \<or> Category T = the (optCategory F))))"
proof -
  have eq: "Filter s F = filter (matches F) (tasks s)"
    by (rule Filter_filter)
  have m: "matches F = (\<lambda>T. (optStatus F = None \<or> Status T = the (optStatus F)) \<and>
                 (optCategory F = None \<or> Category T = the (optCategory F)))"
    by (rule ext) (simp add: matches_def)
  have all: "Filter s \<lparr>optStatus = None, optCategory = None\<rparr> = tasks s"
    by (simp add: Filter_filter matches_def)
  have empty: "(filter (matches F) (tasks s) = []) = (\<not> (\<exists>T. T \<in> set (tasks s) \<and> matches F T))"
    by (auto simp: filter_empty_conv)
  show ?thesis
    using all empty unfolding eq m by auto
qed

theorem Filter_correct_witness:
  "taskB \<in> set (Filter twoTasks \<lparr>optStatus = Some StatusDone, optCategory = None\<rparr>) \<and>
   Filter twoTasks \<lparr>optStatus = Some StatusDone, optCategory = None\<rparr> = [taskB] \<and>
   Filter twoTasks \<lparr>optStatus = None, optCategory = None\<rparr> = [taskA, taskB]"
  using Filter_correct [of taskB twoTasks "\<lparr>optStatus = Some StatusDone, optCategory = None\<rparr>"]
  by (simp add: twoTasks_def taskA_def taskB_def StatusDone_def)

subsection \<open>Operations on an identifier that is not stored\<close>

lemma findFrom_absent: "tid \<notin> ID ` set ts \<Longrightarrow> findFrom ts tid i = - 1"
  by (induction ts arbitrary: i) auto

lemma findTaskIndex_absent: "tid \<notin> ID ` set (tasks s) \<Longrightarrow> findTaskIndex s tid = - 1"
  by (simp add: findTaskIndex_def findFrom_absent)

text \<open>
  Claim C4. When no stored task has the identifier, each of \<open>UpdateStatus\<close>,
  \<open>UpdateDescription\<close>, \<open>UpdateCategory\<close>, \<open>Update\<close> and \<open>Delete\<close> returns no error and
  leaves the store as it was: the tasks in memory and the file on disk, which is not even
  written.
\<close>

theorem missing_id_noop:
  assumes "tid \<notin> ID ` set (tasks s)"
  shows "UpdateStatus e s tid status = (s, None) \<and>
         UpdateDescription e s tid description = (s, None) \<and>
         UpdateCategory e s tid category = (s, None) \<and>
         Update e s tid description category = (s, None) \<and>
         Delete e s tid = (s, None)"
  using findTaskIndex_absent [OF assms]
  by (simp add: UpdateStatus_def UpdateDescription_def UpdateCategory_def Update_def Delete_def)

theorem missing_id_noop_witness:
  "''20261101013000.999999'' \<notin> ID ` set (tasks twoTasks) \<and>
   UpdateStatus (envAt clockB) twoTasks ''20261101013000.999999'' StatusDone = (twoTasks, None) \<and>
   Delete (envAt clockB) twoTasks ''20261101013000.999999'' = (twoTasks, None)"
proof -
  have absent: "''20261101013000.999999'' \<notin> ID ` set (tasks twoTasks)"
    by (simp add: twoTasks_def taskA_def taskB_def)
  show ?thesis
    using absent missing_id_noop [OF absent, of "envAt clockB" StatusDone]
    by simp
qed

subsection \<open>Identifiers\<close>

lemma Format_ID_clockA: "Format_ID clockA = ''20261101013000.123456''"
  by (simp add: Format_ID_def clockA_def appendInt_def utoa.simps digit_def)

lemma Format_ID_clockB: "Format_ID clockB = ''20261101013000.123456''"
  by (simp add: Format_ID_def clockB_def appendInt_def utoa.simps digit_def)

text \<open>
  Claim C8, at the input where the code fails it. Two tasks are added to the empty store,
  the second 800 nanoseconds after the first, both writes succeeding. The two clock
  readings differ, the two identifiers are the same text, and the stored identifiers are
  not pairwise distinct.
\<close>

theorem generateID_collision:
  "clockA \<noteq> clockB \<and>
   map ID (tasks (fst (Add (envAt clockB)
                         (fst (Add (envAt clockA) emptyStore ''Write report'' ''work''))
                         ''Buy milk'' ''errands'')))
     = [''20261101013000.123456'', ''20261101013000.123456''] \<and>
   \<not> distinct (map ID (tasks (fst (Add (envAt clockB)
                         (fst (Add (envAt clockA) emptyStore ''Write report'' ''work''))
                         ''Buy milk'' ''errands''))))"
proof -
  have ne: "clockA \<noteq> clockB"
    by (simp add: clockA_def clockB_def)
  show ?thesis
    using ne
    by (simp add: Add_def Let_def Save_def generateID_def envAt_def emptyStore_def
          Format_ID_clockA Format_ID_clockB)
qed

subsection \<open>Finding and removing a task\<close>

lemma tasks_Save [simp]: "tasks (fst (Save e s)) = tasks s"
  by (simp add: Save_def split: option.splits)

lemma findFrom_found:
  "findFrom ts tid i \<noteq> - 1 \<Longrightarrow> 0 \<le> i \<Longrightarrow>
     i \<le> findFrom ts tid i \<and> findFrom ts tid i < i + int (length ts) \<and>
     ID (ts ! nat (findFrom ts tid i - i)) = tid"
proof (induction ts arbitrary: i)
  case Nil
  then show ?case by simp
next
  case (Cons t ts)
  show ?case
  proof (cases "ID t = tid")
    case True
    then show ?thesis by simp
  next
    case False
    with Cons.prems have ne: "findFrom ts tid (i + 1) \<noteq> - 1" by simp
    from Cons.IH [OF ne] Cons.prems(2)
    have ih: "i + 1 \<le> findFrom ts tid (i + 1)"
      "findFrom ts tid (i + 1) < i + 1 + int (length ts)"
      "ID (ts ! nat (findFrom ts tid (i + 1) - (i + 1))) = tid" by auto
    have "nat (findFrom ts tid (i + 1) - i) = Suc (nat (findFrom ts tid (i + 1) - (i + 1)))"
      using ih(1) by linarith
    with False ih show ?thesis by simp
  qed
qed

lemma findTaskIndex_found:
  assumes "findTaskIndex s tid \<noteq> - 1"
  shows "nat (findTaskIndex s tid) < length (tasks s) \<and> 0 \<le> findTaskIndex s tid \<and>
         ID (tasks s ! nat (findTaskIndex s tid)) = tid"
  using findFrom_found [of "tasks s" tid 0] assms
  by (auto simp: findTaskIndex_def)

lemma length_filter_remove:
  "k < length ts \<Longrightarrow>
     length (filter P ts) \<le> Suc (length (filter P (take k ts @ drop (Suc k) ts)))"
proof -
  assume k: "k < length ts"
  have "length (filter P ts) = length (filter P (take k ts @ ts ! k # drop (Suc k) ts))"
    using k by (simp add: id_take_nth_drop [symmetric])
  also have "\<dots> \<le> Suc (length (filter P (take k ts @ drop (Suc k) ts)))"
    by simp
  finally show ?thesis .
qed

lemma Delete_length:
  "length (Filter s F) \<le> Suc (length (Filter (fst (Delete e s tid)) F))"
  using findTaskIndex_found [of s tid]
    length_filter_remove [of "nat (findTaskIndex s tid)" "tasks s" "matches F"]
  by (auto simp: Delete_def Let_def Filter_filter)

lemma map_ID_update:
  "k < length ts \<Longrightarrow> ID x = ID (ts ! k) \<Longrightarrow> map ID (ts[k := x]) = map ID ts"
  by (simp add: map_update list_update_same_conv)

text \<open>
  No operation of the store changes the identifier of a stored task: the updates keep the
  sequence of identifiers, \<open>Add\<close> appends one task to the stored ones, and \<open>Delete\<close>
  leaves a subsequence of them.
\<close>

lemma stored_ids_kept:
  "map ID (tasks (fst (UpdateStatus e s tid status))) = map ID (tasks s) \<and>
   map ID (tasks (fst (UpdateDescription e s tid description))) = map ID (tasks s) \<and>
   map ID (tasks (fst (UpdateCategory e s tid category))) = map ID (tasks s) \<and>
   map ID (tasks (fst (Update e s tid description category))) = map ID (tasks s) \<and>
   butlast (tasks (fst (Add e s description category))) = tasks s \<and>
   subseq (tasks (fst (Delete e s tid))) (tasks s)"
proof (cases "findTaskIndex s tid = - 1")
  case True
  then show ?thesis
    by (simp add: UpdateStatus_def UpdateDescription_def UpdateCategory_def Update_def
          Delete_def Add_def Let_def)
next
  case False
  let ?k = "nat (findTaskIndex s tid)"
  have k: "?k < length (tasks s)"
    using findTaskIndex_found [OF False] by simp
  have a: "drop ?k (tasks s) = tasks s ! ?k # drop (Suc ?k) (tasks s)"
    using k by (simp add: Cons_nth_drop_Suc)
  have b: "subseq (drop (Suc ?k) (tasks s)) (drop ?k (tasks s))"
    unfolding a by (rule list_emb_Cons) simp
  have "subseq (take ?k (tasks s) @ drop (Suc ?k) (tasks s)) (take ?k (tasks s) @ drop ?k (tasks s))"
    by (rule list_emb_append_mono) (simp_all add: b)
  then have d: "subseq (take ?k (tasks s) @ drop (Suc ?k) (tasks s)) (tasks s)"
    by simp
  show ?thesis
    using False k d
    by (simp add: UpdateStatus_def UpdateDescription_def UpdateCategory_def Update_def
          Delete_def Add_def Let_def map_ID_update)
qed

section \<open>Properties of the controller\<close>

subsection \<open>The invariant\<close>

lemma getCurrentTask_Some:
  "0 \<le> cursor m \<Longrightarrow> hasCurrentTask m \<Longrightarrow> getCurrentTask m = Some (mtasks m ! nat (cursor m))"
  by (simp add: hasCurrentTask_def getCurrentTask_def)

lemma updateTaskStatus_inv:
  assumes "0 \<le> cursor m"
  shows "\<exists>m1. updateTaskStatus e status m = Some m1 \<and> (hasCurrentTask m \<longrightarrow> visible_ok m1) \<and>
           (\<not> hasCurrentTask m \<longrightarrow> m1 = m) \<and>
           cursor m1 = cursor m \<and> viewMode m1 = viewMode m"
proof (cases "hasCurrentTask m")
  case True
  let ?task = "mtasks m ! nat (cursor m)"
  obtain st err where u: "UpdateStatus e (store m) (ID ?task) status = (st, err)"
    by (cases "UpdateStatus e (store m) (ID ?task) status")
  show ?thesis
    using True u getCurrentTask_Some [OF assms True]
    by (cases err) (auto simp: updateTaskStatus_def visible_ok_def refreshTasks_def)
next
  case False
  then show ?thesis by (simp add: updateTaskStatus_def)
qed

lemma updateListMode_inv:
  assumes "model_ok m"
  shows "\<exists>m' c. updateListMode W e m k = Some (m', c) \<and> model_ok m'"
proof -
  have v: "visible_ok m" and c0: "0 \<le> cursor m"
    using assms by (simp_all add: model_ok_def)
  have uts: "\<And>status. hasCurrentTask m \<Longrightarrow>
      \<exists>m1. updateTaskStatus e status m = Some m1 \<and> visible_ok m1 \<and> cursor m1 = cursor m"
    using updateTaskStatus_inv [OF c0] by blast
  have g: "hasCurrentTask m \<Longrightarrow> getCurrentTask m = Some (mtasks m ! nat (cursor m))"
    using getCurrentTask_Some [OF c0] by simp
  note defs = updateListMode_def Let_def model_ok_def visible_ok_def refreshTasks_def
  consider (q) "keyString k = ''ctrl+c'' \<or> keyString k = ''q''"
    | (n) "keyString k = ''n''" | (e) "keyString k = ''e''" | (f) "keyString k = ''f''"
    | (v) "keyString k = ''v''" | (up) "keyString k = ''up'' \<or> keyString k = ''k''"
    | (down) "keyString k = ''down'' \<or> keyString k = ''j''"
    | (d) "keyString k = ''d''" | (i) "keyString k = ''i''" | (p) "keyString k = ''p''"
    | (x) "keyString k = ''x''"
    | (other) "keyString k \<notin> {''ctrl+c'', ''q'', ''n'', ''e'', ''f'', ''v'', ''up'', ''k'',
                 ''down'', ''j'', ''d'', ''i'', ''p'', ''x''}"
    by auto
  then show ?thesis
  proof cases
    case q
    then show ?thesis using v c0 by (auto simp: defs)
  next
    case n
    then show ?thesis using v c0 by (auto simp: defs)
  next
    case e
    then show ?thesis using v c0 g by (auto simp: defs)
  next
    case f
    then show ?thesis using v c0 by (auto simp: defs)
  next
    case v
    then show ?thesis using \<open>visible_ok m\<close> c0 by (auto simp: defs)
  next
    case up
    then show ?thesis using v c0 by (auto simp: defs)
  next
    case down
    then show ?thesis using v c0 by (auto simp: defs)
  next
    case d
    show ?thesis
    proof (cases "hasCurrentTask m")
      case True
      from uts [OF True, of StatusPending] uts [OF True, of StatusDone] g [OF True] d True c0
      show ?thesis
        by (auto simp: updateListMode_def Let_def model_ok_def visible_ok_def)
    next
      case False
      then show ?thesis using d assms by (simp add: updateListMode_def)
    qed
  next
    case i
    show ?thesis
    proof (cases "hasCurrentTask m")
      case True
      from uts [OF True, of StatusInProgress] i True c0
      show ?thesis
        by (auto simp: updateListMode_def Let_def model_ok_def visible_ok_def)
    next
      case False
      then show ?thesis using i assms by (simp add: updateListMode_def)
    qed
  next
    case p
    show ?thesis
    proof (cases "hasCurrentTask m")
      case True
      from uts [OF True, of StatusPending] p True c0
      show ?thesis
        by (auto simp: updateListMode_def Let_def model_ok_def visible_ok_def)
    next
      case False
      then show ?thesis using p assms by (simp add: updateListMode_def)
    qed
  next
    case x
    show ?thesis
    proof (cases "hasCurrentTask m")
      case True
      let ?task = "mtasks m ! nat (cursor m)"
      obtain st err where dl: "Delete e (store m) (ID ?task) = (st, err)"
        by (cases "Delete e (store m) (ID ?task)")
      from g [OF True] x True dl c0
      show ?thesis
        by (cases err) (auto simp: defs)
    next
      case False
      then show ?thesis using x assms by (simp add: updateListMode_def)
    qed
  next
    case other
    then show ?thesis using assms by (simp add: updateListMode_def)
  qed
qed

lemma model_ok_typeInto: "model_ok m \<Longrightarrow> model_ok (fst (typeInto W m k))"
  by (auto simp: typeInto_def model_ok_def visible_ok_def split: prod.splits)

lemma model_ok_switchInput: "model_ok m \<Longrightarrow> model_ok (switchInput W m)"
  by (auto simp: switchInput_def model_ok_def visible_ok_def)

lemma updateCreateMode_inv:
  assumes "model_ok m"
  shows "\<exists>m' c. updateCreateMode W e m k = Some (m', c) \<and> model_ok m'"
proof (cases "keyType k")
  case KeyEsc
  then show ?thesis using assms
    by (auto simp: updateCreateMode_def model_ok_def visible_ok_def)
next
  case KeyTab
  then show ?thesis using model_ok_switchInput [OF assms]
    by (simp add: updateCreateMode_def)
next
  case KeyEnter
  let ?d = "TrimSpace (tiValue W (textInput m))"
  let ?c = "TrimSpace (tiValue W (categoryInput m))"
  obtain st err where a: "Add e (store m) ?d ?c = (st, err)"
    by (cases "Add e (store m) ?d ?c")
  show ?thesis using assms KeyEnter a
    by (cases err)
       (auto simp: updateCreateMode_def Let_def model_ok_def visible_ok_def refreshTasks_def)
next
  case KeyOther
  then show ?thesis using model_ok_typeInto [OF assms, of W k]
    by (cases "typeInto W m k") (simp add: updateCreateMode_def)
qed

lemma updateEditMode_inv:
  assumes "model_ok m"
  shows "\<exists>m' c. updateEditMode W e m k = Some (m', c) \<and> model_ok m'"
proof (cases "keyType k")
  case KeyEsc
  then show ?thesis using assms
    by (auto simp: updateEditMode_def model_ok_def visible_ok_def)
next
  case KeyTab
  then show ?thesis using model_ok_switchInput [OF assms(1)]
    by (simp add: updateEditMode_def)
next
  case KeyEnter
  let ?d = "TrimSpace (tiValue W (textInput m))"
  let ?c = "TrimSpace (tiValue W (categoryInput m))"
  obtain st err where a: "Update e (store m) (editingTaskID m) ?d ?c = (st, err)"
    by (cases "Update e (store m) (editingTaskID m) ?d ?c")
  show ?thesis using assms KeyEnter a
    by (cases err)
       (auto simp: updateEditMode_def Let_def model_ok_def visible_ok_def refreshTasks_def)
next
  case KeyOther
  then show ?thesis using model_ok_typeInto [OF assms(1), of W k]
    by (cases "typeInto W m k") (simp add: updateEditMode_def)
qed

lemma updateFilterMode_inv:
  assumes "model_ok m"
  shows "\<exists>m' c. updateFilterMode m k = Some (m', c) \<and> model_ok m'"
  using assms
  by (auto simp: updateFilterMode_def Let_def model_ok_def visible_ok_def refreshTasks_def
        applyStatusFilter_def)

lemma updateFilterCategoryMode_inv:
  assumes "model_ok m"
  shows "\<exists>m' c. updateFilterCategoryMode e m k = Some (m', c) \<and> model_ok m'"
  using assms
  by (auto simp: updateFilterCategoryMode_def Let_def model_ok_def visible_ok_def
        refreshTasks_def)

lemma model_Update_inv:
  assumes "model_ok m"
  shows "\<exists>m' c. model_Update W e m msg = Some (m', c) \<and> model_ok m'"
proof (cases msg)
  case (Key k)
  show ?thesis
    using updateListMode_inv [OF assms, of W e k] updateCreateMode_inv [OF assms, of W e k]
      updateEditMode_inv [OF assms, of W e k] updateFilterMode_inv [OF assms, of k]
      updateFilterCategoryMode_inv [OF assms, of e k] Key
    by (cases "viewMode m") (simp_all add: model_Update_def)
next
  case (OtherMsg n)
  then show ?thesis using assms
    by (auto simp: model_Update_def model_ok_def visible_ok_def split: prod.splits)
qed

lemma run_inv:
  "model_ok m \<Longrightarrow> \<exists>m'. run W m evs = Some m' \<and> model_ok m'"
proof (induction evs arbitrary: m)
  case Nil
  then show ?case by simp
next
  case (Cons ev evs)
  from model_Update_inv [OF Cons.prems, of W "fst ev" "snd ev"]
  obtain m1 c where s: "model_Update W (fst ev) m (snd ev) = Some (m1, c)" and ok: "model_ok m1"
    by blast
  from Cons.IH [OF ok] s show ?case by simp
qed

lemma initialModel_ok: "model_ok (initialModel ti ci st)"
  by (simp add: model_ok_def visible_ok_def initialModel_def GetAll_def Filter_filter matches_def)

subsection \<open>Re-derivation of the visible list\<close>

lemma updateTaskStatus_refresh:
  "updateTaskStatus e status m = Some m1 \<Longrightarrow>
     (if hasCurrentTask m then visible_ok m1 else m1 = m)"
  by (auto simp: updateTaskStatus_def visible_ok_def refreshTasks_def
        split: option.splits prod.splits if_splits)

lemma updateListMode_refresh:
  assumes "updateListMode W e m k = Some (m', c)"
  shows "visible_ok m' \<or> untouched m m'"
proof -
  note defs = updateListMode_def Let_def untouched_def visible_ok_def refreshTasks_def
  consider (q) "keyString k = ''ctrl+c'' \<or> keyString k = ''q''"
    | (n) "keyString k = ''n''" | (e) "keyString k = ''e''" | (f) "keyString k = ''f''"
    | (v) "keyString k = ''v''" | (up) "keyString k = ''up'' \<or> keyString k = ''k''"
    | (down) "keyString k = ''down'' \<or> keyString k = ''j''"
    | (d) "keyString k = ''d''" | (i) "keyString k = ''i''" | (p) "keyString k = ''p''"
    | (x) "keyString k = ''x''"
    | (other) "keyString k \<notin> {''ctrl+c'', ''q'', ''n'', ''e'', ''f'', ''v'', ''up'', ''k'',
                 ''down'', ''j'', ''d'', ''i'', ''p'', ''x''}"
    by auto
  then show ?thesis
  proof cases
    case q
    then show ?thesis using assms by (auto simp: defs)
  next
    case n
    then show ?thesis using assms by (auto simp: defs)
  next
    case e
    then show ?thesis using assms by (auto simp: defs split: if_splits option.splits)
  next
    case f
    then show ?thesis using assms by (auto simp: defs)
  next
    case v
    then show ?thesis using assms by (auto simp: defs split: if_splits)
  next
    case up
    then show ?thesis using assms by (auto simp: defs split: if_splits)
  next
    case down
    then show ?thesis using assms by (auto simp: defs split: if_splits)
  next
    case d
    then show ?thesis using assms
      by (auto simp: updateListMode_def Let_def untouched_def visible_ok_def
            split: if_splits option.splits dest!: updateTaskStatus_refresh)
  next
    case i
    then show ?thesis using assms
      by (auto simp: updateListMode_def Let_def untouched_def visible_ok_def
            split: if_splits option.splits dest!: updateTaskStatus_refresh)
  next
    case p
    then show ?thesis using assms
      by (auto simp: updateListMode_def Let_def untouched_def visible_ok_def
            split: if_splits option.splits dest!: updateTaskStatus_refresh)
  next
    case x
    then show ?thesis using assms
      by (auto simp: defs split: if_splits option.splits prod.splits)
  next
    case other
    then show ?thesis using assms by (simp add: updateListMode_def untouched_def)
  qed
qed

lemma updateCreateMode_refresh:
  assumes "updateCreateMode W e m k = Some (m', c)"
  shows "visible_ok m' \<or> untouched m m'"
  using assms
  by (cases "keyType k")
     (auto simp: updateCreateMode_def Let_def untouched_def visible_ok_def refreshTasks_def
        switchInput_def typeInto_def split: if_splits option.splits prod.splits)

lemma updateEditMode_refresh:
  assumes "updateEditMode W e m k = Some (m', c)"
  shows "visible_ok m' \<or> untouched m m'"
  using assms
  by (cases "keyType k")
     (auto simp: updateEditMode_def Let_def untouched_def visible_ok_def refreshTasks_def
        switchInput_def typeInto_def split: if_splits option.splits prod.splits)

lemma updateFilterMode_refresh:
  assumes "updateFilterMode m k = Some (m', c)"
  shows "visible_ok m' \<or> untouched m m'"
  using assms
  by (auto simp: updateFilterMode_def Let_def untouched_def visible_ok_def refreshTasks_def
        applyStatusFilter_def split: if_splits)

lemma updateFilterCategoryMode_refresh:
  assumes "updateFilterCategoryMode e m k = Some (m', c)"
  shows "visible_ok m' \<or> untouched m m'"
  using assms
  by (auto simp: updateFilterCategoryMode_def Let_def untouched_def visible_ok_def
        refreshTasks_def split: if_splits)

lemma model_Update_refresh:
  assumes "model_Update W e m msg = Some (m', c)"
  shows "visible_ok m' \<or> untouched m m'"
proof (cases msg)
  case (Key k)
  show ?thesis
    using assms Key updateListMode_refresh [of W e m k m' c]
      updateCreateMode_refresh [of W e m k m' c] updateEditMode_refresh [of W e m k m' c]
      updateFilterMode_refresh [of m k m' c] updateFilterCategoryMode_refresh [of e m k m' c]
    by (cases "viewMode m") (simp_all add: model_Update_def)
next
  case (OtherMsg n)
  then show ?thesis using assms
    by (auto simp: model_Update_def untouched_def split: prod.splits)
qed

text \<open>
  Claim C1. Whatever events are handled from the initial model, in whatever environment,
  no step panics, and in the model reached the visible list is \<open>Filter\<close> of the store
  under the active filter options. And any step, from any model, that changes the store or
  one of the two filter options returns with the visible list re-derived from the store
  and the options it leaves.
\<close>

theorem rederivation_invariant:
  "(\<exists>m. run W (initialModel ti ci st) evs = Some m \<and>
        mtasks m = Filter (store m)
                     \<lparr>optStatus = filterStatus m, optCategory = filterCategory m\<rparr>) \<and>
   (\<forall>e m msg m' c.
      model_Update W e m msg = Some (m', c) \<and>
      (store m' \<noteq> store m \<or> filterStatus m' \<noteq> filterStatus m \<or>
       filterCategory m' \<noteq> filterCategory m) \<longrightarrow>
      mtasks m' = Filter (store m')
                    \<lparr>optStatus = filterStatus m', optCategory = filterCategory m'\<rparr>)"
proof -
  have a: "\<exists>m. run W (initialModel ti ci st) evs = Some m \<and>
        mtasks m = Filter (store m)
                     \<lparr>optStatus = filterStatus m, optCategory = filterCategory m\<rparr>"
    using run_inv [OF initialModel_ok, of W ti ci st evs]
    by (auto simp: model_ok_def visible_ok_def)
  have b: "\<And>e m msg m' c. model_Update W e m msg = Some (m', c) \<Longrightarrow>
      (store m' \<noteq> store m \<or> filterStatus m' \<noteq> filterStatus m \<or>
       filterCategory m' \<noteq> filterCategory m) \<Longrightarrow>
      mtasks m' = Filter (store m')
                    \<lparr>optStatus = filterStatus m', optCategory = filterCategory m'\<rparr>"
    using model_Update_refresh by (fastforce simp: untouched_def visible_ok_def)
  show ?thesis using a b by blast
qed

lemma run_pressFD:
  "run plainInput (initialModel [] [] twoTasks) pressFD =
     Some ((initialModel [] [] twoTasks)
             \<lparr>mtasks := [taskB], filterStatus := Some StatusDone,
              message := ''Showing done tasks''\<rparr>)"
  by (simp add: pressFD_def model_Update_def initialModel_def updateListMode_def
        updateFilterMode_def keyOf_def applyStatusFilter_def refreshTasks_def Filter_def
        GetAll_def twoTasks_def taskA_def taskB_def StatusDone_def)

theorem rederivation_invariant_witness:
  "map_option mtasks (run plainInput (initialModel [] [] twoTasks) pressFD) = Some [taskB] \<and>
   mtasks (fst (the (model_Update plainInput (envAt clockB)
                       ((initialModel [] [] twoTasks)\<lparr>viewMode := ModeFilter\<rparr>)
                       (Key (keyOf ''d'')))))
     = [taskB]"
proof -
  let ?m = "(initialModel ([]::string) [] twoTasks)\<lparr>viewMode := ModeFilter\<rparr>"
  let ?m' = "?m\<lparr>mtasks := [taskB], filterStatus := Some StatusDone, viewMode := ModeList,
              message := ''Showing done tasks''\<rparr>"
  have step: "model_Update plainInput (envAt clockB) ?m (Key (keyOf ''d'')) = Some (?m', NoCmd)"
    by (simp add: model_Update_def initialModel_def
        updateFilterMode_def keyOf_def applyStatusFilter_def refreshTasks_def Filter_def
        GetAll_def twoTasks_def taskA_def taskB_def StatusDone_def)
  have changed: "filterStatus ?m' \<noteq> filterStatus ?m"
    by (simp add: initialModel_def)
  have F: "Filter (store ?m') \<lparr>optStatus = filterStatus ?m', optCategory = filterCategory ?m'\<rparr> = [taskB]"
    by (simp add: initialModel_def Filter_def twoTasks_def taskA_def taskB_def StatusDone_def)
  have hyp: "model_Update plainInput (envAt clockB) ?m (Key (keyOf ''d'')) = Some (?m', NoCmd) \<and>
      (store ?m' \<noteq> store ?m \<or> filterStatus ?m' \<noteq> filterStatus ?m \<or>
       filterCategory ?m' \<noteq> filterCategory ?m)"
    using step changed by blast
  have "mtasks ?m' = Filter (store ?m')
          \<lparr>optStatus = filterStatus ?m', optCategory = filterCategory ?m'\<rparr>"
    by (rule rederivation_invariant [of plainInput "[]" "[]" twoTasks pressFD,
          THEN conjunct2, rule_format, OF hyp])
  then show ?thesis using step run_pressFD F by simp
qed

subsection \<open>Cursor movement\<close>









text \<open>
  A status filter is active and the task under the cursor leaves it: the visible list
  shrinks and the cursor, which only the deletion clamps, is left one past the last row.
\<close>

lemma cursor_past_end_after_status_change:
  "map_option viewMode (run plainInput (initialModel [] [] twoPending) pressFPJD) = Some ModeList \<and>
   map_option mtasks (run plainInput (initialModel [] [] twoPending) pressFPJD) = Some [taskA] \<and>
   map_option cursor (run plainInput (initialModel [] [] twoPending) pressFPJD) = Some 1"
  by (simp add: pressFPJD_def model_Update_def updateListMode_def updateFilterMode_def
        applyStatusFilter_def initialModel_def keyOf_def GetAll_def twoPending_def
        hasCurrentTask_def getCurrentTask_def updateTaskStatus_def UpdateStatus_def
        findTaskIndex_def Save_def envAt_def refreshTasks_def Filter_def taskA_def taskC_def
        StatusPending_def StatusDone_def)

subsection \<open>Validation in the create mode\<close>

text \<open>
  Claim C5. Enter in the create mode with a description that is empty once trimmed, or
  with a description and a category that is empty once trimmed, ends in the list mode with
  the store (tasks and file) and the visible list as they were, and with the message that
  names the missing field. The instance that follows is the scenario of the claim: over
  the empty store, "Buy milk" with no category is turned down, the message contains
  "category is required" and no task is stored or written.
\<close>

theorem create_validation:
  assumes "viewMode m = ModeCreate" and "keyType k = KeyEnter"
  shows "(TrimSpace (tiValue W (textInput m)) = [] \<longrightarrow>
            (\<exists>m'. model_Update W e m (Key k) = Some (m', NoCmd) \<and>
               viewMode m' = ModeList \<and> store m' = store m \<and> mtasks m' = mtasks m \<and>
               message m' = ''Task creation cancelled - description is required'')) \<and>
         (TrimSpace (tiValue W (textInput m)) \<noteq> [] \<and>
          TrimSpace (tiValue W (categoryInput m)) = [] \<longrightarrow>
            (\<exists>m'. model_Update W e m (Key k) = Some (m', NoCmd) \<and>
               viewMode m' = ModeList \<and> store m' = store m \<and> mtasks m' = mtasks m \<and>
               message m' = ''Task creation cancelled - category is required''))"
  using assms by (simp add: model_Update_def updateCreateMode_def)

theorem create_validation_witness:
  "map_option (viewMode \<circ> fst) (model_Update plainInput (envAt clockA) buyMilkForm (Key enterKey))
     = Some ModeList \<and>
   map_option (message \<circ> fst) (model_Update plainInput (envAt clockA) buyMilkForm (Key enterKey))
     = Some ''Task creation cancelled - category is required'' \<and>
   sublist ''category is required'' ''Task creation cancelled - category is required'' \<and>
   map_option (tasks \<circ> store \<circ> fst)
     (model_Update plainInput (envAt clockA) buyMilkForm (Key enterKey)) = Some [] \<and>
   map_option (disk \<circ> store \<circ> fst)
     (model_Update plainInput (envAt clockA) buyMilkForm (Key enterKey)) = Some None"
proof -
  have mode: "viewMode buyMilkForm = ModeCreate"
    by (simp add: buyMilkForm_def)
  have enter: "keyType enterKey = KeyEnter"
    by (simp add: enterKey_def)
  have d: "TrimSpace (tiValue plainInput (textInput buyMilkForm)) \<noteq> []"
    by (simp add: buyMilkForm_def plainInput_def TrimSpace_def whiteSpace_def)
  have c: "TrimSpace (tiValue plainInput (categoryInput buyMilkForm)) = []"
    by (simp add: buyMilkForm_def plainInput_def TrimSpace_def whiteSpace_def)
  have sub: "sublist ''category is required'' ''Task creation cancelled - category is required''"
    unfolding sublist_def
    by (rule exI [of _ "''Task creation cancelled - ''"], rule exI [of _ "[]"]) simp
  have st: "tasks (store buyMilkForm) = []" "disk (store buyMilkForm) = None"
    by (simp_all add: buyMilkForm_def initialModel_def emptyStore_def)
  from create_validation [OF mode enter, of plainInput "envAt clockA",
      THEN conjunct2, rule_format, OF conjI [OF d c]]
  show ?thesis using sub st by auto
qed

subsection \<open>Mode transitions\<close>

text \<open>
  Claim C6, amended. From a mode other than the list mode, Esc ends in the list mode in
  one step, and so does Enter in the create and edit modes, a choice "a", "p", "i" or "d"
  in the status menu, and "a" or the digit of a listed category in the category menu. Any
  message leaves the mode as it is or ends in the list mode, with one exception: "c" in
  the status menu opens the category menu.
\<close>

theorem mode_transitions:
  assumes "viewMode m \<noteq> ModeList"
  shows "(keyType k = KeyEsc \<and> keyString k = ''esc'' \<longrightarrow>
            (\<exists>m' c. model_Update W e m (Key k) = Some (m', c) \<and> viewMode m' = ModeList)) \<and>
         (keyType k = KeyEnter \<and> (viewMode m = ModeCreate \<or> viewMode m = ModeEdit) \<longrightarrow>
            (\<exists>m' c. model_Update W e m (Key k) = Some (m', c) \<and> viewMode m' = ModeList)) \<and>
         (viewMode m = ModeFilter \<and> keyString k \<in> {''a'', ''p'', ''i'', ''d''} \<longrightarrow>
            (\<exists>m' c. model_Update W e m (Key k) = Some (m', c) \<and> viewMode m' = ModeList)) \<and>
         (viewMode m = ModeFilterCategory \<and>
          (keyString k = ''a'' \<or>
           (isDigitKey (keyString k) \<and>
            int (of_char (hd (keyString k))) - int (of_char (CHR ''1''))
              < int (length (GetCategories e (store m))))) \<longrightarrow>
            (\<exists>m' c. model_Update W e m (Key k) = Some (m', c) \<and> viewMode m' = ModeList)) \<and>
         (\<exists>m' c. model_Update W e m msg = Some (m', c) \<and>
            (viewMode m' = viewMode m \<or> viewMode m' = ModeList \<or>
             (viewMode m = ModeFilter \<and> viewMode m' = ModeFilterCategory \<and>
              (\<exists>k'. msg = Key k' \<and> keyString k' = ''c''))))"
proof -
  have esc: "\<exists>m' c. model_Update W e m (Key k) = Some (m', c) \<and> viewMode m' = ModeList"
    if "keyType k = KeyEsc" "keyString k = ''esc''"
    using assms that
    by (cases "viewMode m")
       (simp_all add: model_Update_def updateCreateMode_def updateEditMode_def
          updateFilterMode_def updateFilterCategoryMode_def)
  have enter: "\<exists>m' c. model_Update W e m (Key k) = Some (m', c) \<and> viewMode m' = ModeList"
    if "keyType k = KeyEnter" "viewMode m = ModeCreate \<or> viewMode m = ModeEdit"
    using that
    by (auto simp: model_Update_def updateCreateMode_def updateEditMode_def Let_def
          refreshTasks_def split: prod.splits option.splits)
  have choice: "\<exists>m' c. model_Update W e m (Key k) = Some (m', c) \<and> viewMode m' = ModeList"
    if "viewMode m = ModeFilter" "keyString k \<in> {''a'', ''p'', ''i'', ''d''}"
    using that
    by (auto simp: model_Update_def updateFilterMode_def Let_def applyStatusFilter_def
          refreshTasks_def)
  have cat: "\<exists>m' c. model_Update W e m (Key k) = Some (m', c) \<and> viewMode m' = ModeList"
    if "viewMode m = ModeFilterCategory"
      "keyString k = ''a'' \<or>
           (isDigitKey (keyString k) \<and>
            int (of_char (hd (keyString k))) - int (of_char (CHR ''1''))
              < int (length (GetCategories e (store m))))"
    using that
    by (auto simp: model_Update_def updateFilterCategoryMode_def Let_def refreshTasks_def)
  have any: "\<exists>m' c. model_Update W e m msg = Some (m', c) \<and>
            (viewMode m' = viewMode m \<or> viewMode m' = ModeList \<or>
             (viewMode m = ModeFilter \<and> viewMode m' = ModeFilterCategory \<and>
              (\<exists>k'. msg = Key k' \<and> keyString k' = ''c'')))"
  proof (cases msg)
    case (OtherMsg n)
    then show ?thesis
      by (auto simp: model_Update_def split: prod.splits)
  next
    case (Key k')
    show ?thesis
    proof (cases "viewMode m")
      case ModeList
      then show ?thesis using assms by simp
    next
      case ModeCreate
      then show ?thesis using Key
        by (cases "keyType k'")
           (auto simp: model_Update_def updateCreateMode_def Let_def refreshTasks_def
              switchInput_def typeInto_def split: prod.splits option.splits)
    next
      case ModeEdit
      then show ?thesis using Key
        by (cases "keyType k'")
           (auto simp: model_Update_def updateEditMode_def Let_def refreshTasks_def
              switchInput_def typeInto_def split: prod.splits option.splits)
    next
      case ModeFilter
      then show ?thesis using Key
        by (auto simp: model_Update_def updateFilterMode_def Let_def applyStatusFilter_def
              refreshTasks_def)
    next
      case ModeFilterCategory
      then show ?thesis using Key
        by (auto simp: model_Update_def updateFilterCategoryMode_def Let_def refreshTasks_def)
    qed
  qed
  show ?thesis
    using esc enter choice cat any by blast
qed

text \<open>
  The claim as stated fails in the status menu: "c" leads to the category menu, a mode
  other than the list mode.
\<close>

theorem mode_transitions_counterexample:
  "map_option viewMode (run plainInput (initialModel [] [] twoTasks) pressF) = Some ModeFilter \<and>
   map_option viewMode (run plainInput (initialModel [] [] twoTasks) pressFC)
     = Some ModeFilterCategory"
  by (simp add: pressF_def pressFC_def model_Update_def updateListMode_def updateFilterMode_def
        initialModel_def keyOf_def)

theorem mode_transitions_witness:
  "map_option (viewMode \<circ> fst) (model_Update plainInput (envAt clockB) categoryMenu (Key escKey))
     = Some ModeList \<and>
   map_option (viewMode \<circ> fst) (model_Update plainInput (envAt clockA) buyMilkForm (Key enterKey))
     = Some ModeList"
proof -
  have c: "viewMode categoryMenu \<noteq> ModeList"
    by (simp add: categoryMenu_def initialModel_def)
  have b: "viewMode buyMilkForm \<noteq> ModeList"
    by (simp add: buyMilkForm_def)
  have esc: "keyType escKey = KeyEsc \<and> keyString escKey = ''esc''"
    by (simp add: escKey_def)
  have enter: "keyType enterKey = KeyEnter \<and>
               (viewMode buyMilkForm = ModeCreate \<or> viewMode buyMilkForm = ModeEdit)"
    by (simp add: enterKey_def buyMilkForm_def)
  from mode_transitions [OF c, of escKey plainInput "envAt clockB", THEN conjunct1, rule_format, OF esc]
    mode_transitions [OF b, of enterKey plainInput "envAt clockA",
      THEN conjunct2, THEN conjunct1, rule_format, OF enter]
  show ?thesis by auto
qed

subsection \<open>Selection of a category\<close>

lemma of_char_digit: "n \<le> 9 \<Longrightarrow> (of_char (digit n) :: nat) = 48 + n"
proof -
  assume "n \<le> 9"
  then have "n \<in> {0, 1, 2, 3, 4, 5, 6, 7, 8, 9}"
    by auto
  then show ?thesis
    by (auto simp: digit_def)
qed

lemma isDigitKey_digit: "n \<le> 9 \<Longrightarrow> isDigitKey [digit n] = (1 \<le> n)"
  by (auto simp: isDigitKey_def of_char_digit)

lemma digit_not_menu: "n \<le> 9 \<Longrightarrow> [digit n] \<noteq> ''esc'' \<and> [digit n] \<noteq> ''a''"
proof -
  assume n: "n \<le> 9"
  have "(of_char (digit n) :: nat) \<noteq> of_char (CHR ''a'')"
    using n by (simp add: of_char_digit)
  then show ?thesis by auto
qed

lemma categorySet_keys:
  "distinct ks \<Longrightarrow>
     distinct (categorySet ts ks) \<and>
     set (categorySet ts ks) = set ks \<union> {c. c \<noteq> [] \<and> c \<in> Category ` set ts}"
  by (induction ts arbitrary: ks) auto

lemma GetCategories_distinct:
  assumes "mset (rangeOrder e (categorySet (tasks s) [])) = mset (categorySet (tasks s) [])"
  shows "distinct (GetCategories e s) \<and>
         set (GetCategories e s) = {c. c \<noteq> [] \<and> c \<in> Category ` set (tasks s)}"
proof -
  have k: "distinct (categorySet (tasks s) [])"
    "set (categorySet (tasks s) []) = {c. c \<noteq> [] \<and> c \<in> Category ` set (tasks s)}"
    using categorySet_keys [of "[]" "tasks s"] by simp_all
  from assms k show ?thesis
    unfolding GetCategories_def
    by (metis mset_eq_imp_distinct_iff mset_eq_setD)
qed

text \<open>
  Claim C7. In the category menu the key of the digit \<open>n\<close> selects the \<open>n\<close>-th entry,
  counted from 1, of what \<open>GetCategories\<close> returns for the store at this very step; a
  digit outside 1 to the length of that list, and any key that is neither Esc, "a" nor a
  digit from 1 to 9, leaves the whole model as it was: mode, filters and visible list.
  That list has each category in use once, whatever the order of enumeration.
\<close>

theorem category_selection_guard:
  assumes "viewMode m = ModeFilterCategory"
  shows "(n \<le> 9 \<and> keyString k = [digit n] \<and> 1 \<le> n \<and> n \<le> length (GetCategories e (store m)) \<longrightarrow>
            model_Update W e m (Key k) =
              Some (m\<lparr>filterCategory := Some (GetCategories e (store m) ! (n - 1)),
                      mtasks := Filter (store m)
                                  \<lparr>optStatus = filterStatus m,
                                   optCategory = Some (GetCategories e (store m) ! (n - 1))\<rparr>,
                      viewMode := ModeList,
                      message := ''Showing tasks in category: '' @
                                   GetCategories e (store m) ! (n - 1),
                      cursor := 0\<rparr>, NoCmd)) \<and>
         (n \<le> 9 \<and> keyString k = [digit n] \<and> (n < 1 \<or> length (GetCategories e (store m)) < n) \<longrightarrow>
            model_Update W e m (Key k) = Some (m, NoCmd)) \<and>
         (keyString k \<noteq> ''esc'' \<and> keyString k \<noteq> ''a'' \<and> \<not> isDigitKey (keyString k) \<longrightarrow>
            model_Update W e m (Key k) = Some (m, NoCmd)) \<and>
         (mset (rangeOrder e (categorySet (tasks (store m)) [])) =
            mset (categorySet (tasks (store m)) []) \<longrightarrow>
            distinct (GetCategories e (store m)) \<and>
            set (GetCategories e (store m)) =
              {c. c \<noteq> [] \<and> c \<in> Category ` set (tasks (store m))})"
proof -
  have sel: "model_Update W e m (Key k) =
              Some (m\<lparr>filterCategory := Some (GetCategories e (store m) ! (n - 1)),
                      mtasks := Filter (store m)
                                  \<lparr>optStatus = filterStatus m,
                                   optCategory = Some (GetCategories e (store m) ! (n - 1))\<rparr>,
                      viewMode := ModeList,
                      message := ''Showing tasks in category: '' @
                                   GetCategories e (store m) ! (n - 1),
                      cursor := 0\<rparr>, NoCmd)"
    if n: "n \<le> 9" and k: "keyString k = [digit n]" and r: "1 \<le> n"
      "n \<le> length (GetCategories e (store m))"
  proof -
    have idx: "int (of_char (digit n)) - int (of_char (CHR ''1'')) = int (n - 1)"
      using n r by (simp add: of_char_digit)
    have nn: "nat (int n - 1) = n - 1"
      by simp
    show ?thesis
      using assms k r digit_not_menu [OF n] isDigitKey_digit [OF n] idx nn
      by (simp add: model_Update_def updateFilterCategoryMode_def Let_def refreshTasks_def)
  qed
  have rej: "model_Update W e m (Key k) = Some (m, NoCmd)"
    if n: "n \<le> 9" and k: "keyString k = [digit n]"
      and r: "n < 1 \<or> length (GetCategories e (store m)) < n"
  proof (cases "1 \<le> n")
    case True
    then have idx: "int (of_char (digit n)) - int (of_char (CHR ''1'')) = int (n - 1)"
      using n by (simp add: of_char_digit)
    show ?thesis
      using assms k r True digit_not_menu [OF n] isDigitKey_digit [OF n] idx
      by (simp add: model_Update_def updateFilterCategoryMode_def Let_def)
  next
    case False
    then show ?thesis
      using assms k digit_not_menu [OF n] isDigitKey_digit [OF n]
      by (simp add: model_Update_def updateFilterCategoryMode_def Let_def)
  qed
  have other: "model_Update W e m (Key k) = Some (m, NoCmd)"
    if "keyString k \<noteq> ''esc''" "keyString k \<noteq> ''a''" "\<not> isDigitKey (keyString k)"
    using assms that by (simp add: model_Update_def updateFilterCategoryMode_def Let_def)
  show ?thesis
    using sel rej other GetCategories_distinct [of e "store m"] by blast
qed

theorem category_selection_guard_witness:
  "GetCategories (envAt clockB) (store categoryMenu) = [''work'', ''errands''] \<and>
   distinct (GetCategories (envAt clockB) (store categoryMenu)) \<and>
   map_option (filterCategory \<circ> fst)
     (model_Update plainInput (envAt clockB) categoryMenu (Key (keyOf ''2''))) = Some (Some ''errands'') \<and>
   map_option (mtasks \<circ> fst)
     (model_Update plainInput (envAt clockB) categoryMenu (Key (keyOf ''2''))) = Some [taskB] \<and>
   model_Update plainInput (envAt clockB) categoryMenu (Key (keyOf ''3'')) = Some (categoryMenu, NoCmd) \<and>
   model_Update plainInput (envAt clockB) categoryMenu (Key (keyOf ''0'')) = Some (categoryMenu, NoCmd) \<and>
   model_Update plainInput (envAt clockB) categoryMenu (Key (keyOf ''z'')) = Some (categoryMenu, NoCmd)"
proof -
  have mode: "viewMode categoryMenu = ModeFilterCategory"
    by (simp add: categoryMenu_def initialModel_def)
  have cats: "GetCategories (envAt clockB) (store categoryMenu) = [''work'', ''errands'']"
    by (simp add: GetCategories_def envAt_def categoryMenu_def initialModel_def twoTasks_def
          taskA_def taskB_def)
  have perm: "mset (rangeOrder (envAt clockB) (categorySet (tasks (store categoryMenu)) [])) =
              mset (categorySet (tasks (store categoryMenu)) [])"
    by (simp add: envAt_def)
  have F: "Filter (store categoryMenu)
             \<lparr>optStatus = filterStatus categoryMenu, optCategory = Some ''errands''\<rparr> = [taskB]"
    by (simp add: categoryMenu_def initialModel_def Filter_def twoTasks_def taskA_def taskB_def)
  have two: "(2::nat) \<le> 9 \<and> keyString (keyOf ''2'') = [digit 2] \<and> (1::nat) \<le> 2 \<and>
             2 \<le> length (GetCategories (envAt clockB) (store categoryMenu))"
    by (simp add: keyOf_def digit_def cats)
  have three: "(3::nat) \<le> 9 \<and> keyString (keyOf ''3'') = [digit 3] \<and>
               ((3::nat) < 1 \<or> length (GetCategories (envAt clockB) (store categoryMenu)) < 3)"
    by (simp add: keyOf_def digit_def cats)
  have zero: "(0::nat) \<le> 9 \<and> keyString (keyOf ''0'') = [digit 0] \<and>
               ((0::nat) < 1 \<or> length (GetCategories (envAt clockB) (store categoryMenu)) < 0)"
    by (simp add: keyOf_def digit_def)
  have tab: "keyString (keyOf ''z'') \<noteq> ''esc'' \<and> keyString (keyOf ''z'') \<noteq> ''a'' \<and>
             \<not> isDigitKey (keyString (keyOf ''z''))"
    by (simp add: keyOf_def isDigitKey_def)
  note g = category_selection_guard [OF mode, of _ _ "envAt clockB" plainInput]
  from g [of 2 "keyOf ''2''", THEN conjunct1, rule_format, OF two]
    g [of 3 "keyOf ''3''", THEN conjunct2, THEN conjunct1, rule_format, OF three]
    g [of 0 "keyOf ''0''", THEN conjunct2, THEN conjunct1, rule_format, OF zero]
    g [of 0 "keyOf ''z''", THEN conjunct2, THEN conjunct2, THEN conjunct1, rule_format, OF tab]
    g [of 0 "keyOf ''z''", THEN conjunct2, THEN conjunct2, THEN conjunct2, rule_format, OF perm]
  show ?thesis using cats F by simp
qed

subsection \<open>The cursor after a deletion\<close>

lemma findFrom_present: "tid \<in> ID ` set ts \<Longrightarrow> 0 \<le> i \<Longrightarrow> findFrom ts tid i \<noteq> - 1"
  by (induction ts arbitrary: i) auto

lemma filter_others:
  "distinct (map f xs) \<Longrightarrow> i < length xs \<Longrightarrow>
     filter (\<lambda>x. f x \<noteq> f (xs ! i)) xs = take i xs @ drop (Suc i) xs"
proof (induction xs arbitrary: i)
  case Nil
  then show ?case by simp
next
  case (Cons a xs)
  show ?case
  proof (cases i)
    case 0
    have "f a \<notin> f ` set xs"
      using Cons.prems(1) by simp
    then have "\<forall>x\<in>set xs. f x \<noteq> f a"
      by (metis image_eqI)
    then have "filter (\<lambda>x. f x \<noteq> f a) xs = xs"
      by (simp add: filter_id_conv)
    then show ?thesis using 0 by simp
  next
    case (Suc j)
    then have j: "j < length xs" using Cons.prems(2) by simp
    then have "f a \<noteq> f (xs ! j)"
      using Cons.prems(1) by (metis distinct.simps(2) image_eqI list.simps(9) list.set_map nth_mem)
    then show ?thesis
      using Suc Cons.IH [OF _ j] Cons.prems(1) by simp
  qed
qed

lemma Delete_distinct:
  assumes "distinct (map ID (tasks s))" and "tid \<in> ID ` set (tasks s)"
  shows "tasks (fst (Delete e s tid)) = filter (\<lambda>t. ID t \<noteq> tid) (tasks s)"
proof -
  have ne: "findTaskIndex s tid \<noteq> - 1"
    using findFrom_present [OF assms(2), of 0] by (simp add: findTaskIndex_def)
  let ?j = "nat (findTaskIndex s tid)"
  have j: "?j < length (tasks s)" "ID (tasks s ! ?j) = tid"
    using findTaskIndex_found [OF ne] by simp_all
  have "filter (\<lambda>t. ID t \<noteq> ID (tasks s ! ?j)) (tasks s) = take ?j (tasks s) @ drop (Suc ?j) (tasks s)"
    by (rule filter_others [OF assms(1) j(1)])
  then show ?thesis
    using ne j(2) by (simp add: Delete_def Let_def)
qed

lemma delete_visible:
  assumes v: "visible_ok m" and c0: "0 \<le> cursor m" and h: "hasCurrentTask m"
    and d: "distinct (map ID (tasks (store m)))"
  shows "Filter (fst (Delete e (store m) (ID (mtasks m ! nat (cursor m)))))
           \<lparr>optStatus = filterStatus m, optCategory = filterCategory m\<rparr>
         = take (nat (cursor m)) (mtasks m) @ drop (Suc (nat (cursor m))) (mtasks m)"
proof -
  let ?F = "\<lparr>optStatus = filterStatus m, optCategory = filterCategory m\<rparr>"
  let ?c = "nat (cursor m)"
  let ?tid = "ID (mtasks m ! ?c)"
  have vs: "mtasks m = filter (matches ?F) (tasks (store m))"
    using v by (simp add: visible_ok_def Filter_filter)
  have c: "?c < length (mtasks m)"
    using h c0 unfolding hasCurrentTask_def by linarith
  then have "mtasks m ! ?c \<in> set (mtasks m)"
    by simp
  then have mem: "?tid \<in> ID ` set (tasks (store m))"
    unfolding vs by auto
  have dv: "distinct (map ID (mtasks m))"
    unfolding vs using d by (rule distinct_map_filter)
  have "Filter (fst (Delete e (store m) ?tid)) ?F
          = filter (matches ?F) (filter (\<lambda>t. ID t \<noteq> ?tid) (tasks (store m)))"
    by (simp add: Filter_filter Delete_distinct [OF d mem])
  also have "\<dots> = filter (\<lambda>t. ID t \<noteq> ?tid) (filter (matches ?F) (tasks (store m)))"
    by (simp add: conj_commute)
  also have "\<dots> = filter (\<lambda>t. ID t \<noteq> ?tid) (mtasks m)"
    by (simp add: vs [symmetric])
  also have "\<dots> = take ?c (mtasks m) @ drop (Suc ?c) (mtasks m)"
    by (rule filter_others [OF dv c])
  finally show ?thesis .
qed

lemma delete_step:
  assumes "viewMode m = ModeList" and "keyString k = ''x''" and "hasCurrentTask m"
    and "0 \<le> cursor m"
  shows "\<exists>m'. model_Update W e m (Key k) = Some (m', NoCmd) \<and>
           store m' = fst (Delete e (store m) (ID (mtasks m ! nat (cursor m)))) \<and>
           filterStatus m' = filterStatus m \<and> filterCategory m' = filterCategory m \<and>
           mtasks m' = Filter (store m') \<lparr>optStatus = filterStatus m, optCategory = filterCategory m\<rparr> \<and>
           cursor m' = (if cursor m \<ge> int (length (mtasks m')) \<and> cursor m > 0
                        then cursor m - 1 else cursor m)"
proof -
  let ?task = "mtasks m ! nat (cursor m)"
  obtain st err where dl: "Delete e (store m) (ID ?task) = (st, err)"
    by (cases "Delete e (store m) (ID ?task)")
  show ?thesis
    using assms dl getCurrentTask_Some [OF assms(4,3)]
    by (cases err) (auto simp: model_Update_def updateListMode_def Let_def refreshTasks_def)
qed

text \<open>
  Claim C9, amended. In a list-mode state reached from the initial model, with a task
  under the cursor, the delete key does not panic and re-derives the visible list; the
  cursor goes down by one exactly when it is past the end of the new list and not 0, so
  afterwards it is on a row, or at 0 over an empty list. When the stored identifiers are
  pairwise distinct the row under the cursor is the one removed; and when that row is
  removed and was the last one, the cursor goes down by one, except from row 0, where it
  stays.
\<close>

theorem delete_cursor_clamp:
  assumes "run W (initialModel ti ci st) evs = Some m" and "viewMode m = ModeList"
    and "keyString k = ''x''" and "hasCurrentTask m"
  shows "\<exists>m'. model_Update W e m (Key k) = Some (m', NoCmd) \<and>
           mtasks m' = Filter (store m')
                         \<lparr>optStatus = filterStatus m', optCategory = filterCategory m'\<rparr> \<and>
           cursor m' = (if cursor m \<ge> int (length (mtasks m')) \<and> cursor m > 0
                        then cursor m - 1 else cursor m) \<and>
           0 \<le> cursor m' \<and>
           (cursor m' < int (length (mtasks m')) \<or> (mtasks m' = [] \<and> cursor m' = 0)) \<and>
           (distinct (map ID (tasks (store m))) \<longrightarrow>
              mtasks m' = take (nat (cursor m)) (mtasks m) @ drop (nat (cursor m) + 1) (mtasks m)) \<and>
           (mtasks m' = take (nat (cursor m)) (mtasks m) @ drop (nat (cursor m) + 1) (mtasks m) \<and>
            cursor m = int (length (mtasks m)) - 1 \<longrightarrow>
              cursor m' = (if cursor m > 0 then cursor m - 1 else 0))"
proof -
  let ?F = "\<lparr>optStatus = filterStatus m, optCategory = filterCategory m\<rparr>"
  let ?tid = "ID (mtasks m ! nat (cursor m))"
  have ok: "model_ok m"
    using run_inv [OF initialModel_ok, of W ti ci st evs] assms(1) by simp
  then have v: "visible_ok m" and c0: "0 \<le> cursor m"
    by (simp_all add: model_ok_def)
  have c: "cursor m < int (length (mtasks m))"
    using assms(4) by (simp add: hasCurrentTask_def)
  from delete_step [OF assms(2,3,4) c0, of W e]
  obtain m' where s: "model_Update W e m (Key k) = Some (m', NoCmd)"
    and st: "store m' = fst (Delete e (store m) ?tid)"
    and fs: "filterStatus m' = filterStatus m" "filterCategory m' = filterCategory m"
    and vis: "mtasks m' = Filter (store m') ?F"
    and cur: "cursor m' = (if cursor m \<ge> int (length (mtasks m')) \<and> cursor m > 0
                        then cursor m - 1 else cursor m)"
    by blast
  have len: "length (mtasks m) \<le> Suc (length (mtasks m'))"
    using Delete_length [of "store m" ?F e ?tid] v by (simp add: vis st visible_ok_def)
  have gone: "mtasks m' = take (nat (cursor m)) (mtasks m) @ drop (nat (cursor m) + 1) (mtasks m)"
    if d: "distinct (map ID (tasks (store m)))"
    using delete_visible [OF v c0 assms(4) d, of e] by (simp add: vis st)
  have last: "cursor m' = (if cursor m > 0 then cursor m - 1 else 0)"
    if g: "mtasks m' = take (nat (cursor m)) (mtasks m) @ drop (nat (cursor m) + 1) (mtasks m)"
      and l: "cursor m = int (length (mtasks m)) - 1"
  proof -
    have "length (mtasks m') = length (mtasks m) - 1"
      using g c c0 by simp
    then have n: "int (length (mtasks m')) = int (length (mtasks m)) - 1"
      using c c0 by linarith
    show ?thesis using cur l c0 n by simp
  qed
  have bounds: "0 \<le> cursor m'"
    "cursor m' < int (length (mtasks m')) \<or> (mtasks m' = [] \<and> cursor m' = 0)"
    using cur c0 c len by (auto split: if_splits)
  show ?thesis
    using s vis fs cur bounds gone last by auto
qed

text \<open>
  The claim as stated fails when the last visible row is the only one: the cursor is 0
  before the deletion and 0 after it.
\<close>

theorem delete_cursor_clamp_counterexample:
  "cursor (initialModel ([] :: string) [] oneTask) = 0 \<and>
   mtasks (initialModel ([] :: string) [] oneTask) = [taskA] \<and>
   map_option mtasks (run plainInput (initialModel [] [] oneTask) pressX) = Some [] \<and>
   map_option cursor (run plainInput (initialModel [] [] oneTask) pressX) = Some 0"
  by (simp add: pressX_def model_Update_def updateListMode_def initialModel_def keyOf_def
        GetAll_def oneTask_def hasCurrentTask_def getCurrentTask_def Delete_def
        findTaskIndex_def Save_def envAt_def refreshTasks_def Filter_def taskA_def)

theorem delete_cursor_clamp_witness:
  "map_option (cursor \<circ> fst) (model_Update plainInput (envAt clockB) onLastRow (Key (keyOf ''x'')))
     = Some 0 \<and>
   map_option (mtasks \<circ> fst) (model_Update plainInput (envAt clockB) onLastRow (Key (keyOf ''x'')))
     = Some [taskA]"
proof -
  have r: "run plainInput (initialModel [] [] twoTasks) pressDown = Some onLastRow"
    by (simp add: pressDown_def onLastRow_def model_Update_def updateListMode_def
          initialModel_def keyOf_def GetAll_def twoTasks_def)
  have l: "viewMode onLastRow = ModeList"
    by (simp add: onLastRow_def initialModel_def)
  have k: "keyString (keyOf ''x'') = ''x''"
    by (simp add: keyOf_def)
  have h: "hasCurrentTask onLastRow"
    by (simp add: hasCurrentTask_def onLastRow_def initialModel_def GetAll_def twoTasks_def)
  have d: "distinct (map ID (tasks (store onLastRow)))"
    by (simp add: onLastRow_def initialModel_def twoTasks_def taskA_def taskB_def)
  have v: "cursor onLastRow = 1" "mtasks onLastRow = [taskA, taskB]"
    by (simp_all add: onLastRow_def initialModel_def GetAll_def twoTasks_def)
  from delete_cursor_clamp [OF r l k h, of "envAt clockB"] d
  show ?thesis unfolding v by auto
qed

subsection \<open>The two choices "all"\<close>

text \<open>
  Claim C10. The choice "all" in the category menu clears the category filter only: the
  status filter stays as it is and the visible list is re-derived under it. The choice
  "all" in the status menu clears both filters, so the visible list is all the stored
  tasks. Either way the step ends in the list mode with the cursor at 0 and the store as
  it was.
\<close>

theorem show_all_asymmetry:
  assumes "keyString k = ''a''"
  shows "(viewMode m = ModeFilterCategory \<longrightarrow>
            (\<exists>m'. model_Update W e m (Key k) = Some (m', NoCmd) \<and>
               filterCategory m' = None \<and> filterStatus m' = filterStatus m \<and>
               mtasks m' = Filter (store m)
                             \<lparr>optStatus = filterStatus m, optCategory = None\<rparr> \<and>
               viewMode m' = ModeList \<and> cursor m' = 0 \<and> store m' = store m)) \<and>
         (viewMode m = ModeFilter \<longrightarrow>
            (\<exists>m'. model_Update W e m (Key k) = Some (m', NoCmd) \<and>
               filterCategory m' = None \<and> filterStatus m' = None \<and>
               mtasks m' = Filter (store m) \<lparr>optStatus = None, optCategory = None\<rparr> \<and>
               mtasks m' = tasks (store m) \<and>
               viewMode m' = ModeList \<and> cursor m' = 0 \<and> store m' = store m))"
  using assms
  by (auto simp: model_Update_def updateFilterCategoryMode_def updateFilterMode_def
        refreshTasks_def Filter_filter matches_def)

theorem show_all_asymmetry_witness:
  "map_option (filterStatus \<circ> fst)
     (model_Update plainInput (envAt clockB) (doneErrands ModeFilterCategory) (Key (keyOf ''a'')))
     = Some (Some StatusDone) \<and>
   map_option (mtasks \<circ> fst)
     (model_Update plainInput (envAt clockB) (doneErrands ModeFilterCategory) (Key (keyOf ''a'')))
     = Some [taskB] \<and>
   map_option (filterStatus \<circ> fst)
     (model_Update plainInput (envAt clockB) (doneErrands ModeFilter) (Key (keyOf ''a'')))
     = Some None \<and>
   map_option (mtasks \<circ> fst)
     (model_Update plainInput (envAt clockB) (doneErrands ModeFilter) (Key (keyOf ''a'')))
     = Some [taskA, taskB]"
proof -
  have k: "keyString (keyOf ''a'') = ''a''"
    by (simp add: keyOf_def)
  have c: "viewMode (doneErrands ModeFilterCategory) = ModeFilterCategory"
    and f: "viewMode (doneErrands ModeFilter) = ModeFilter"
    by (simp_all add: doneErrands_def)
  have F: "Filter (store (doneErrands ModeFilterCategory))
             \<lparr>optStatus = filterStatus (doneErrands ModeFilterCategory), optCategory = None\<rparr>
           = [taskB]"
    by (simp add: doneErrands_def initialModel_def Filter_def twoTasks_def taskA_def taskB_def
          StatusDone_def)
  have s: "filterStatus (doneErrands ModeFilterCategory) = Some StatusDone"
    "tasks (store (doneErrands ModeFilter)) = [taskA, taskB]"
    by (simp_all add: doneErrands_def initialModel_def twoTasks_def)
  from show_all_asymmetry [OF k, of "doneErrands ModeFilterCategory" plainInput "envAt clockB",
      THEN conjunct1, rule_format, OF c]
    show_all_asymmetry [OF k, of "doneErrands ModeFilter" plainInput "envAt clockB",
      THEN conjunct2, rule_format, OF f]
  show ?thesis using F s by auto
qed

end
